theory Spec2Isabelle
  imports Complex_Main "HOL-Library.Word" "HOL-Library.Signed_Division"
begin

section \<open>Common data: strings, fixed-width integers\<close>

text \<open>
  A \<open>QString\<close> is modelled as a \<open>string\<close>; the null and the empty \<open>QString\<close> are both
  \<open>[]\<close> (the code only ever asks \<open>isEmpty\<close>). \<open>qint64\<close> is a 64-bit word read in two's
  complement, \<open>int\<close> a 32-bit one.
\<close>

type_synonym QString = string
type_synonym qint64 = "64 word"
type_synonym cint = "32 word"

text \<open>\<open>QChar::toLower\<close> on the ASCII letters; every other character is left alone.\<close>

definition toLower_char :: "char \<Rightarrow> char" where
  "toLower_char c =
     (let n = (of_char c :: nat) in if 65 \<le> n \<and> n \<le> 90 then char_of (n + 32) else c)"

definition toLower :: "QString \<Rightarrow> QString" where
  "toLower s = map toLower_char s"

definition startsWith :: "QString \<Rightarrow> QString \<Rightarrow> bool" where
  "startsWith s p = (take (length p) s = p)"

text \<open>\<open>s.endsWith(t, Qt::CaseInsensitive)\<close>\<close>

definition endsWith_ci :: "QString \<Rightarrow> QString \<Rightarrow> bool" where
  "endsWith_ci s t =
     (length t \<le> length s \<and> toLower (drop (length s - length t) s) = toLower t)"

text \<open>\<open>s.contains(t, Qt::CaseInsensitive)\<close>: some suffix of \<open>s\<close> starts with \<open>t\<close>.\<close>

fun contains_ci :: "QString \<Rightarrow> QString \<Rightarrow> bool" where
  "contains_ci [] t = (t = [])"
| "contains_ci (c # s) t = (startsWith (toLower (c # s)) (toLower t) \<or> contains_ci s t)"

text \<open>\<open>s.lastIndexOf(c)\<close>: the index of the last occurrence, \<open>-1\<close> when there is none.\<close>

definition lastIndexOf :: "QString \<Rightarrow> char \<Rightarrow> int" where
  "lastIndexOf s c =
     (if c \<in> set s then int (length s) - 1 - int (length (takeWhile (\<lambda>x. x \<noteq> c) (rev s)))
      else - 1)"

text \<open>\<open>s.mid(pos)\<close> for \<open>pos \<ge> 0\<close> and \<open>s.left(n)\<close>.\<close>

definition mid :: "QString \<Rightarrow> int \<Rightarrow> QString" where
  "mid s pos = drop (nat pos) s"

definition left :: "QString \<Rightarrow> nat \<Rightarrow> QString" where
  "left s n = take n s"

text \<open>\<open>s.replace(a, b)\<close> on single characters.\<close>

definition replace_char :: "char \<Rightarrow> char \<Rightarrow> QString \<Rightarrow> QString" where
  "replace_char a b s = map (\<lambda>c. if c = a then b else c) s"

section \<open>TFMTrackModel: cache key, cache probe, download\<close>

subsection \<open>getFileExtension\<close>

definition isAudioExt :: "QString \<Rightarrow> bool" where
  "isAudioExt ext =
     (ext = ''.mp3'' \<or> ext = ''.flac'' \<or> ext = ''.wav'' \<or>
      ext = ''.ogg'' \<or> ext = ''.m4a'' \<or> ext = ''.aac'' \<or>
      ext = ''.opus'' \<or> ext = ''.wma'')"

text \<open>
  The extension found after the last dot of \<open>s\<close>, when the dot is not the first character
  and the lower-cased suffix is one of the eight audio extensions.
\<close>

definition extOf :: "QString \<Rightarrow> QString option" where
  "extOf s =
     (let dotPos = lastIndexOf s (CHR ''.'') in
      if dotPos > 0 then
        (let ext = toLower (mid s dotPos) in if isAudioExt ext then Some ext else None)
      else None)"

text \<open>
  \<open>TFMTrackModel::getFileExtension(trackName, url)\<close>. \<open>QUrl(url).path()\<close> is Qt's and is
  the parameter \<open>urlPath\<close>.
\<close>

definition getFileExtension :: "(QString \<Rightarrow> QString) \<Rightarrow> QString \<Rightarrow> QString \<Rightarrow> QString" where
  "getFileExtension urlPath trackName url =
     (case (if trackName \<noteq> [] then extOf trackName else None) of
        Some ext \<Rightarrow> ext
      | None \<Rightarrow>
          (case extOf (urlPath url) of
             Some ext \<Rightarrow> ext
           | None \<Rightarrow> ''.mp3''))"

subsection \<open>Cache key derivation (getTrack, lines 70-82)\<close>

definition sanitize :: "QString \<Rightarrow> QString" where
  "sanitize externalId =
     replace_char (CHR '':'') (CHR ''_'')
       (replace_char (CHR 0x5C) (CHR ''_'')
         (replace_char (CHR ''/'') (CHR ''_'') externalId))"

text \<open>The file name put after \<open>m_cacheDir + "/"\<close>, from the sanitized id and the extension.\<close>

definition cacheFileName :: "QString \<Rightarrow> QString \<Rightarrow> QString" where
  "cacheFileName sanitizedId fileExt =
     (let sanitizedId' =
        (if endsWith_ci sanitizedId fileExt
         then left sanitizedId (length sanitizedId - length fileExt)
         else sanitizedId)
      in sanitizedId' @ fileExt)"

definition cachePath :: "QString \<Rightarrow> QString \<Rightarrow> QString \<Rightarrow> QString" where
  "cachePath m_cacheDir externalId fileExt =
     m_cacheDir @ ''/'' @ cacheFileName (sanitize externalId) fileExt"

subsection \<open>The file system and the download manager\<close>

text \<open>
  What \<open>QFileInfo\<close> reports for a path: whether it is a regular file, and its size.
  \<open>requested\<close> lists the URLs handed to \<open>m_downloadManager.get\<close>, oldest first.
\<close>

record fsnode =
  isRegular :: bool
  fsize :: qint64

record world =
  files :: "QString \<rightharpoonup> fsnode"
  requested :: "QString list"

definition isFile :: "world \<Rightarrow> QString \<Rightarrow> bool" where
  "isFile w p = (case files w p of None \<Rightarrow> False | Some n \<Rightarrow> isRegular n)"

text \<open>\<open>QFile::remove(path)\<close>: unlinks a regular file; anything else stays.\<close>

definition QFile_remove :: "world \<Rightarrow> QString \<Rightarrow> world" where
  "QFile_remove w p =
     (case files w p of
        None \<Rightarrow> w
      | Some n \<Rightarrow> if isRegular n then w\<lparr>files := (files w)(p := None)\<rparr> else w)"

subsection \<open>The cache probe (getTrack, lines 87-109)\<close>

text \<open>
  Returns the new value of \<open>location\<close> and the file system: \<open>localPath\<close> when the cached
  file is used, the unchanged \<open>location\<close> otherwise.
\<close>

definition probeCache :: "world \<Rightarrow> QString \<Rightarrow> qint64 \<Rightarrow> QString \<Rightarrow> QString \<times> world" where
  "probeCache w localPath expectedSize location =
     (case files w localPath of
        None \<Rightarrow> (location, w)
      | Some cachedFile \<Rightarrow>
          (let cachedSize = fsize cachedFile;
               sizeValid = (1000 <s cachedSize);
               sizeMatches = (expectedSize \<le>s 0 \<or> cachedSize = expectedSize)
           in if sizeValid \<and> sizeMatches then (localPath, w)
              else (location, QFile_remove w localPath)))"

subsection \<open>The 99 percent test in double precision\<close>

text \<open>
  \<open>data.size() < contentLength * 0.99\<close> is evaluated in IEEE-754 binary64: both integers
  are converted to \<open>double\<close>, the product is rounded to nearest, ties to even, and the
  comparison is exact. \<open>bitlen_nat N\<close> is the number of binary digits of \<open>N\<close>, and
  \<open>rne53 N\<close> rounds a natural number to 53 significant bits.
  The constant \<open>0.99\<close> is the double \<open>8917127262193582 / 2^53\<close>, so the product of the
  integer-valued double \<open>c\<close> with it is \<open>rne53 (c * 8917127262193582) / 2^53\<close>
  (neither overflow nor a subnormal can occur for a positive 64-bit integer).
\<close>

fun bitlen_nat :: "nat \<Rightarrow> nat" where
  "bitlen_nat N = (if N = 0 then 0 else Suc (bitlen_nat (N div 2)))"

declare bitlen_nat.simps [simp del]

definition rne53 :: "nat \<Rightarrow> nat" where
  "rne53 N =
     (let k = bitlen_nat N - 53;
          q = N div 2 ^ k;
          r = N mod 2 ^ k;
          m = (if 2 * r > 2 ^ k \<or> (2 * r = 2 ^ k \<and> odd q) then q + 1 else q)
      in m * 2 ^ k)"

definition double_099 :: nat where
  "double_099 = 8917127262193582"

text \<open>\<open>n < c * 0.99\<close> for a byte count \<open>n\<close> and a positive size \<open>c\<close>.\<close>

definition below99 :: "nat \<Rightarrow> nat \<Rightarrow> bool" where
  "below99 n c = (rne53 n * 2 ^ 53 < rne53 (rne53 c * double_099))"

subsection \<open>downloadTrackSync\<close>

text \<open>
  What the event loop ends with: the 60 second timer fired first, or the reply finished.
  A finished reply carries \<open>reply->error() != NoError\<close>, the HTTP status attribute, the
  Content-Type header as a string, the Content-Length header as \<open>toLongLong\<close> reads it
  (0 when the header is absent), and the bytes \<open>readAll\<close> returns.
\<close>

record QNetworkReply =
  hasError :: bool
  statusCode :: int
  contentType :: QString
  contentLength :: qint64
  body :: "8 word list"

datatype net_outcome = TimedOut | Finished QNetworkReply

text \<open>
  What the disk does with the write: whether \<open>open(WriteOnly)\<close> succeeds, what
  \<open>file.write\<close> returns, and the size \<open>QFileInfo\<close> reports afterwards.
\<close>

record disk_outcome =
  openOk :: bool
  written :: int
  sizeOnDisk :: int

text \<open>The audio signature sniff; its result is only logged.\<close>

definition validAudio :: "8 word list \<Rightarrow> bool" where
  "validAudio d =
     (length d \<ge> 4 \<and>
      (take 4 d = [0x66, 0x4C, 0x61, 0x43] \<or>
       take 3 d = [0x49, 0x44, 0x33] \<or>
       (d ! 0 = 0xFF \<and> and (d ! 1) 0xE0 = 0xE0) \<or>
       take 4 d = [0x4F, 0x67, 0x67, 0x53] \<or>
       take 4 d = [0x52, 0x49, 0x46, 0x46]))"

text \<open>Lines 323-349: open, write, verify; a failed verification removes the file.\<close>

definition writeFile :: "disk_outcome \<Rightarrow> QString \<Rightarrow> 8 word list \<Rightarrow> world \<Rightarrow> QString \<times> world" where
  "writeFile io destPath d w =
     (if \<not> openOk io then ([], w)
      else
        (let w1 = w\<lparr>files := (files w)(destPath \<mapsto>
                     \<lparr>isRegular = True, fsize = word_of_int (sizeOnDisk io)\<rparr>)\<rparr>
         in if written io \<noteq> int (length d) then ([], QFile_remove w1 destPath)
            else if sizeOnDisk io \<noteq> int (length d) then ([], QFile_remove w1 destPath)
            else (destPath, w1)))"

text \<open>The result is the returned path (\<open>[]\<close> is the empty \<open>QString\<close> of every failure).\<close>

definition downloadTrackSync ::
  "net_outcome \<Rightarrow> disk_outcome \<Rightarrow> QString \<Rightarrow> QString \<Rightarrow> qint64 \<Rightarrow> world \<Rightarrow> QString \<times> world" where
  "downloadTrackSync net io url destPath expectedSize w0 =
     (let w = w0\<lparr>requested := requested w0 @ [url]\<rparr> in
      case net of
        TimedOut \<Rightarrow> ([], w)
      | Finished reply \<Rightarrow>
          if hasError reply then ([], w)
          else if statusCode reply \<noteq> 200 then ([], w)
          else if contains_ci (contentType reply) ''text/html'' then ([], w)
          else
            (let cl = contentLength reply; d = body reply in
             if d = [] then ([], w)
             else if 0 <s cl \<and> int (length d) \<noteq> sint cl \<and> below99 (length d) (nat (sint cl))
               then ([], w)
             else if 0 <s expectedSize \<and> int (length d) \<noteq> sint expectedSize
                     \<and> below99 (length d) (nat (sint expectedSize))
               then ([], w)
             else writeFile io destPath d w))"

subsection \<open>getTrackLocation and getTrack\<close>

text \<open>The columns of the model row that \<open>getTrack\<close> reads to find the file.\<close>

record row =
  col_title :: QString
  fld_title :: QString
  fld_external_id :: QString
  fld_id :: QString
  fld_file_size :: qint64
  fld_local_path :: QString
  fld_file_url :: QString
  fld_location :: QString

definition getTrackLocation :: "world \<Rightarrow> row \<Rightarrow> QString" where
  "getTrackLocation w r =
     (let localPath = fld_local_path r in
      if length localPath > 5 \<and> isFile w localPath then localPath
      else
        (let fileUrl = fld_file_url r in
         if fileUrl \<noteq> [] \<and> startsWith fileUrl ''http'' then fileUrl
         else
           (let location = fld_location r in
            if location \<noteq> [] \<and> startsWith location ''http'' then location
            else [])))"

definition isHttpUrl :: "QString \<Rightarrow> bool" where
  "isHttpUrl location = (startsWith location ''http://'' \<or> startsWith location ''https://'')"

definition localPathOf :: "(QString \<Rightarrow> QString) \<Rightarrow> QString \<Rightarrow> row \<Rightarrow> QString \<Rightarrow> QString" where
  "localPathOf urlPath m_cacheDir r location =
     (let trackName = (if col_title r = [] then fld_title r else col_title r);
          externalId = (if fld_external_id r = [] then fld_id r else fld_external_id r);
          fileExt = getFileExtension urlPath trackName location
      in cachePath m_cacheDir externalId fileExt)"

text \<open>
  \<open>getTrack\<close> up to the call of \<open>getOrAddTrack\<close>: the result is the file location handed
  to the track collection, \<open>None\<close> where the code returns a null \<open>TrackPointer\<close> before.
\<close>

definition getTrack ::
  "(QString \<Rightarrow> QString) \<Rightarrow> net_outcome \<Rightarrow> disk_outcome \<Rightarrow> QString \<Rightarrow> world \<Rightarrow> row
     \<Rightarrow> QString option \<times> world" where
  "getTrack urlPath net io m_cacheDir w r =
     (let location = getTrackLocation w r in
      if location = [] then (None, w)
      else if isHttpUrl location then
        (let localPath = localPathOf urlPath m_cacheDir r location;
             expectedSize = fld_file_size r;
             (location1, w1) = probeCache w localPath expectedSize location
         in if location1 \<noteq> localPath then
              (let storedLocalPath = fld_local_path r in
               if length storedLocalPath > 5 \<and> isFile w1 storedLocalPath
               then (Some storedLocalPath, w1)
               else
                 (let (downloadedPath, w2) =
                        downloadTrackSync net io location1 localPath expectedSize w1
                  in if downloadedPath \<noteq> [] then (Some downloadedPath, w2) else (None, w2)))
            else (Some location1, w1))
      else (Some location, w))"

subsection \<open>The spec's reading of "ends with exactly one occurrence"\<close>

text \<open>
  A file name ends with exactly one occurrence of the extension when it ends with it
  (ignoring case) and what is left after cutting that suffix does not.
\<close>

definition ends_with_exactly_one :: "QString \<Rightarrow> QString \<Rightarrow> bool" where
  "ends_with_exactly_one f ext =
     (endsWith_ci f ext \<and> \<not> endsWith_ci (left f (length f - length ext)) ext)"

subsection \<open>Example inputs\<close>

text \<open>A cache directory holding one 5000-byte file, and a row that points at it.\<close>

definition ex_world :: world where
  "ex_world =
     \<lparr>files = [''/cache/abc.mp3'' \<mapsto> \<lparr>isRegular = True, fsize = 5000\<rparr>], requested = []\<rparr>"

definition ex_row :: row where
  "ex_row =
     \<lparr>col_title = ''Song.mp3'', fld_title = ''Song.mp3'', fld_external_id = ''abc'',
      fld_id = ''7'', fld_file_size = 5000, fld_local_path = [],
      fld_file_url = ''http://h/f'', fld_location = []\<rparr>"

text \<open>
  The same row with a \<open>local_path\<close> that exists as a file, and a cached file of \<open>sz\<close>
  bytes at the derived cache path.
\<close>

definition ex_world_local :: "qint64 \<Rightarrow> world" where
  "ex_world_local sz =
     \<lparr>files = [''/music/song.mp3'' \<mapsto> \<lparr>isRegular = True, fsize = 9000\<rparr>,
               ''/cache/abc.mp3'' \<mapsto> \<lparr>isRegular = True, fsize = sz\<rparr>],
      requested = []\<rparr>"

definition ex_row_local :: row where
  "ex_row_local = ex_row\<lparr>fld_local_path := ''/music/song.mp3''\<rparr>"

definition ex_disk :: disk_outcome where
  "ex_disk = \<lparr>openOk = True, written = 4, sizeOnDisk = 4\<rparr>"

definition ex_reply :: "int \<Rightarrow> QString \<Rightarrow> 8 word list \<Rightarrow> QNetworkReply" where
  "ex_reply st ct d =
     \<lparr>hasError = False, statusCode = st, contentType = ct, contentLength = 0, body = d\<rparr>"

text \<open>A 200 reply of \<open>n\<close> zero bytes that announces a Content-Length.\<close>

definition ex_sized_reply :: "qint64 \<Rightarrow> nat \<Rightarrow> QNetworkReply" where
  "ex_sized_reply cl n =
     \<lparr>hasError = False, statusCode = 200, contentType = ''audio/mpeg'',
      contentLength = cl, body = replicate n 0\<rparr>"

section \<open>TFMApiClient: JSON values\<close>

text \<open>
  A \<open>QJsonValue\<close>. A JSON number is a rational (every \<open>double\<close> the parser can produce
  is one); an object is its list of members, looked up by key.
\<close>

datatype QJsonValue =
    Null
  | Bool bool
  | Double rat
  | String QString
  | Array "QJsonValue list"
  | Object "(QString \<times> QJsonValue) list"
  | Undefined

type_synonym QJsonObject = "(QString \<times> QJsonValue) list"

text \<open>\<open>obj.value(key)\<close> is \<open>Undefined\<close> for a missing key.\<close>

definition jvalue :: "QJsonObject \<Rightarrow> QString \<Rightarrow> QJsonValue" where
  "jvalue obj key = (case map_of obj key of None \<Rightarrow> Undefined | Some v \<Rightarrow> v)"

definition jcontains :: "QJsonObject \<Rightarrow> QString \<Rightarrow> bool" where
  "jcontains obj key = (map_of obj key \<noteq> None)"

definition isObject :: "QJsonValue \<Rightarrow> bool" where
  "isObject v = (case v of Object _ \<Rightarrow> True | _ \<Rightarrow> False)"

definition isArray :: "QJsonValue \<Rightarrow> bool" where
  "isArray v = (case v of Array _ \<Rightarrow> True | _ \<Rightarrow> False)"

definition toObject :: "QJsonValue \<Rightarrow> QJsonObject" where
  "toObject v = (case v of Object obj \<Rightarrow> obj | _ \<Rightarrow> [])"

definition toArray :: "QJsonValue \<Rightarrow> QJsonValue list" where
  "toArray v = (case v of Array xs \<Rightarrow> xs | _ \<Rightarrow> [])"

definition toString :: "QJsonValue \<Rightarrow> QString" where
  "toString v = (case v of String s \<Rightarrow> s | _ \<Rightarrow> [])"

text \<open>\<open>v.toBool(defaultValue)\<close>; \<open>toBool()\<close> is \<open>toBool(false)\<close>.\<close>

definition toBool :: "QJsonValue \<Rightarrow> bool \<Rightarrow> bool" where
  "toBool v defaultValue = (case v of Bool b \<Rightarrow> b | _ \<Rightarrow> defaultValue)"

text \<open>
  \<open>v.toInt(defaultValue)\<close>: the number when it is a whole number that fits an \<open>int\<close>, the
  default for every other value.
\<close>

definition toInt :: "QJsonValue \<Rightarrow> cint \<Rightarrow> cint" where
  "toInt v defaultValue =
     (case v of
        Double d \<Rightarrow>
          if of_int \<lfloor>d\<rfloor> = d \<and> - (2 ^ 31) \<le> \<lfloor>d\<rfloor> \<and> \<lfloor>d\<rfloor> < 2 ^ 31
          then word_of_int \<lfloor>d\<rfloor> else defaultValue
      | _ \<Rightarrow> defaultValue)"

text \<open>
  What \<open>QJsonDocument::fromJson\<close> makes of the reply bytes: a parse error with its
  message, or a document. \<open>doc.object()\<close> is empty when the document is an array.
\<close>

datatype json_parse = ParseError QString | Parsed QJsonValue

text \<open>
  Conversions of Qt the client calls and whose rules are not in this repository:
  \<open>value.toVariant().toLongLong()\<close>, \<open>QDateTime::fromString(s, Qt::ISODate)\<close> and
  \<open>QUrl::toPercentEncoding\<close>. The type \<open>'d\<close> is \<open>QDateTime\<close>.
\<close>

record 'd qt =
  toLongLong :: "QJsonValue \<Rightarrow> qint64"
  fromISODate :: "QString \<Rightarrow> 'd"
  toPercentEncoding :: "QString \<Rightarrow> QString"

section \<open>TFMApiClient: QString::arg and QString::number\<close>

definition digit_char :: "nat \<Rightarrow> char" where
  "digit_char n = char_of (48 + n)"

fun digits_nat :: "nat \<Rightarrow> QString" where
  "digits_nat n = (if n < 10 then [digit_char n] else digits_nat (n div 10) @ [digit_char (n mod 10)])"

declare digits_nat.simps [simp del]

definition number :: "int \<Rightarrow> QString" where
  "number i = (if i < 0 then CHR ''-'' # digits_nat (nat (- i)) else digits_nat (nat i))"

text \<open>
  \<open>s.arg(a)\<close> replaces every place marker with the lowest number by \<open>a\<close>. A marker is
  \<open>%\<close>, an optional \<open>L\<close>, and one or two decimal digits. A string without a marker is
  returned as it is.
\<close>

datatype piece = Lit char | Esc nat QString

definition digitValue :: "char \<Rightarrow> nat option" where
  "digitValue c =
     (let n = (of_char c :: nat) in if 48 \<le> n \<and> n \<le> 57 then Some (n - 48) else None)"

text \<open>The marker that starts right after a \<open>%\<close>: its number and how many characters it takes.\<close>

definition escape_at :: "QString \<Rightarrow> (nat \<times> nat) option" where
  "escape_at s =
     (let l = (if take 1 s = ''L'' then 1 else 0 :: nat); s1 = drop l s in
      case s1 of
        [] \<Rightarrow> None
      | d # s2 \<Rightarrow>
          (case digitValue d of
             None \<Rightarrow> None
           | Some e \<Rightarrow>
               (case s2 of
                  [] \<Rightarrow> Some (e, l + 1)
                | d2 # _ \<Rightarrow>
                    (case digitValue d2 of
                       None \<Rightarrow> Some (e, l + 1)
                     | Some e2 \<Rightarrow> Some (10 * e + e2, l + 2)))))"

text \<open>The first argument counts the characters still to skip inside a marker.\<close>

fun arg_scan :: "nat \<Rightarrow> QString \<Rightarrow> piece list" where
  "arg_scan k [] = []"
| "arg_scan (Suc k) (c # s) = arg_scan k s"
| "arg_scan 0 (c # s) =
     (if c = CHR ''%'' then
        (case escape_at s of
           Some (e, len) \<Rightarrow> Esc e (c # take len s) # arg_scan len s
         | None \<Rightarrow> Lit c # arg_scan 0 s)
      else Lit c # arg_scan 0 s)"

definition escapes :: "piece list \<Rightarrow> nat list" where
  "escapes ps = concat (map (\<lambda>p. case p of Lit _ \<Rightarrow> [] | Esc e _ \<Rightarrow> [e]) ps)"

definition arg :: "QString \<Rightarrow> QString \<Rightarrow> QString" where
  "arg s a =
     (let ps = arg_scan 0 s; es = escapes ps in
      if es = [] then s
      else
        (let m = fold min es (hd es) in
         concat (map (\<lambda>p. case p of Lit c \<Rightarrow> [c] | Esc e txt \<Rightarrow> if e = m then a else txt) ps)))"

text \<open>\<open>s.arg(i)\<close> for an \<open>int\<close>.\<close>

definition arg_int :: "QString \<Rightarrow> cint \<Rightarrow> QString" where
  "arg_int s i = arg s (number (sint i))"

section \<open>TFMApiClient: data, state and signals\<close>

record Channel =
  ch_id :: qint64
  ch_name :: QString
  ch_imageUrl :: QString
  ch_isOwner :: bool
  ch_canPost :: bool
  ch_isFavorite :: bool
  ch_type :: QString
  ch_fileCount :: cint

record 'd Track =
  tr_id :: QString
  tr_channelId :: QString
  tr_name :: QString
  tr_path :: QString
  tr_parentId :: QString
  tr_size :: qint64
  tr_type :: QString
  tr_category :: QString
  tr_isFile :: bool
  tr_isFolder :: bool
  tr_hasChildren :: bool
  tr_streamUrl :: QString
  tr_downloadUrl :: QString
  tr_thumbnailUrl :: QString
  tr_dateCreated :: 'd
  tr_dateModified :: 'd

record Folder =
  fo_id :: QString
  fo_name :: QString
  fo_path :: QString
  fo_parentId :: QString
  fo_isFolder :: bool
  fo_hasChildren :: bool

record PaginationInfo =
  page :: cint
  pageSize :: cint
  totalItems :: cint
  totalPages :: cint
  hasNext :: bool
  hasPrevious :: bool

record 'd PaginatedRequest =
  pr_channelId :: QString
  pr_folderId :: QString
  accumulatedTracks :: "'d Track list"
  currentPage :: cint
  pr_pageSize :: cint
  pr_totalPages :: cint

text \<open>The member initializers of \<open>PaginationInfo\<close> and \<open>PaginatedRequest\<close>.\<close>

definition PaginationInfo_init :: PaginationInfo where
  "PaginationInfo_init =
     \<lparr>page = 1, pageSize = 100, totalItems = 0, totalPages = 1,
      hasNext = False, hasPrevious = False\<rparr>"

definition PaginatedRequest_init :: "'d PaginatedRequest" where
  "PaginatedRequest_init =
     \<lparr>pr_channelId = [], pr_folderId = [], accumulatedTracks = [],
      currentPage = 1, pr_pageSize = 100, pr_totalPages = 1\<rparr>"

text \<open>
  A reply object as the client sees it: which \<open>get\<close> created it (\<open>rp_id\<close> counts the
  requests of the network manager), the URL requested, and the dynamic properties the
  client sets on it. A property never set reads as the empty string, or as 0.
\<close>

record PendingReply =
  rp_id :: nat
  rp_url :: QString
  requestType :: QString
  prop_channelId :: QString
  prop_folderId :: QString
  prop_folderPath :: QString
  prop_page :: cint

datatype 'd signal =
    apiError QString
  | requestStarted
  | requestFinished
  | channelsLoaded "Channel list"
  | tracksLoaded QString "'d Track list"
  | folderContentsLoaded QString QString "'d Track list"
  | favoritesLoaded "Channel list"
  | localFoldersLoaded "Folder list"
  | localTracksLoaded QString "'d Track list"
  | searchResultsReady "'d Track list"

text \<open>
  The client's members, and around it what it does to the outside: \<open>network\<close> lists every
  reply created by \<open>m_pNetworkManager->get\<close>, \<open>emitted\<close> every signal emitted, oldest
  first.
\<close>

record 'd TFMApiClient =
  m_serverUrl :: QString
  m_localFolder :: QString
  m_pendingReplies :: "PendingReply list"
  m_paginatedRequests :: "QString \<rightharpoonup> 'd PaginatedRequest"
  network :: "PendingReply list"
  emitted :: "'d signal list"

definition emit :: "'d TFMApiClient \<Rightarrow> 'd signal \<Rightarrow> 'd TFMApiClient" where
  "emit st sg = st\<lparr>emitted := emitted st @ [sg]\<rparr>"

text \<open>
  \<open>createRequest(endpoint)\<close> followed by \<open>get\<close>, the \<open>setProperty\<close> calls and the append
  to \<open>m_pendingReplies\<close>. The headers of the request are constants and left out.
\<close>

definition get_request ::
  "'d TFMApiClient \<Rightarrow> QString \<Rightarrow> QString \<Rightarrow> QString \<Rightarrow> QString \<Rightarrow> QString \<Rightarrow> cint
     \<Rightarrow> 'd TFMApiClient" where
  "get_request st endpoint rtype cid fid fpath pg =
     (let reply = \<lparr>rp_id = length (network st), rp_url = m_serverUrl st @ endpoint,
                   requestType = rtype, prop_channelId = cid, prop_folderId = fid,
                   prop_folderPath = fpath, prop_page = pg\<rparr>
      in st\<lparr>network := network st @ [reply],
            m_pendingReplies := m_pendingReplies st @ [reply]\<rparr>)"

definition not_configured :: QString where
  "not_configured = ''TFM server URL is not configured''"

section \<open>TFMApiClient: the fetch operations\<close>

definition fetchChannels :: "'d TFMApiClient \<Rightarrow> 'd TFMApiClient" where
  "fetchChannels st =
     (if m_serverUrl st = [] then emit st (apiError not_configured)
      else get_request (emit st requestStarted) ''/api/mobile/channels''
             ''fetchChannels'' [] [] [] 0)"

definition fetchChannelTracksPage ::
  "'d TFMApiClient \<Rightarrow> QString \<Rightarrow> cint \<Rightarrow> cint \<Rightarrow> 'd TFMApiClient" where
  "fetchChannelTracksPage st channelId pg pgSize =
     (let endpoint = arg_int (arg_int (arg ''/api/mobile/channels/%1/files?Page=%2&PageSize=%3''
                        channelId) pg) pgSize
      in get_request (emit st requestStarted) endpoint ''fetchChannelTracks'' channelId [] [] pg)"

definition fetchChannelTracks ::
  "'d TFMApiClient \<Rightarrow> QString \<Rightarrow> cint \<Rightarrow> cint \<Rightarrow> 'd TFMApiClient" where
  "fetchChannelTracks st channelId offset limit =
     (if m_serverUrl st = [] then emit st (apiError not_configured)
      else
        (let requestKey = ''channel:'' @ channelId;
             st1 = st\<lparr>m_paginatedRequests := (m_paginatedRequests st)(requestKey := None)\<rparr>
         in fetchChannelTracksPage st1 channelId 1 limit))"

definition fetchFolderContentsPage ::
  "'d TFMApiClient \<Rightarrow> QString \<Rightarrow> QString \<Rightarrow> cint \<Rightarrow> cint \<Rightarrow> 'd TFMApiClient" where
  "fetchFolderContentsPage st channelId folderId pg pgSize =
     (let endpoint = arg_int (arg_int (arg (arg
                        ''/api/mobile/channels/%1/files?folderId=%2&Page=%3&PageSize=%4''
                        channelId) folderId) pg) pgSize
      in get_request (emit st requestStarted) endpoint ''fetchFolderContents''
           channelId folderId [] pg)"

definition fetchFolderContents ::
  "'d TFMApiClient \<Rightarrow> QString \<Rightarrow> QString \<Rightarrow> cint \<Rightarrow> cint \<Rightarrow> 'd TFMApiClient" where
  "fetchFolderContents st channelId folderId offset limit =
     (if m_serverUrl st = [] then emit st (apiError not_configured)
      else
        (let requestKey = ''folder:'' @ channelId @ '':'' @ folderId;
             st1 = st\<lparr>m_paginatedRequests := (m_paginatedRequests st)(requestKey := None)\<rparr>
         in fetchFolderContentsPage st1 channelId folderId 1 limit))"

definition fetchFavorites :: "'d TFMApiClient \<Rightarrow> 'd TFMApiClient" where
  "fetchFavorites st =
     (if m_serverUrl st = [] then emit st (apiError not_configured)
      else get_request (emit st requestStarted) ''/api/mobile/channels/favorites''
             ''fetchFavorites'' [] [] [] 0)"

definition fetchLocalFolders :: "'d TFMApiClient \<Rightarrow> 'd TFMApiClient" where
  "fetchLocalFolders st =
     (if m_serverUrl st = [] then emit st (apiError not_configured)
      else get_request (emit st requestStarted) ''/api/mobile/files/local''
             ''fetchLocalFolders'' [] [] [] 0)"

definition fetchLocalTracks :: "'d qt \<Rightarrow> 'd TFMApiClient \<Rightarrow> QString \<Rightarrow> 'd TFMApiClient" where
  "fetchLocalTracks Q st folderPath =
     (if m_serverUrl st = [] then emit st (apiError not_configured)
      else
        (let endpoint =
               (if folderPath = [] then
                  ''/api/mobile/files/local?filter=audio_folders&page=1&pageSize=100&sortBy=name&sortDescending=false''
                else
                  arg ''/api/mobile/files/local?Path=%1&filter=audio_folders&page=1&pageSize=100&sortBy=name&sortDescending=false''
                    (toPercentEncoding Q folderPath))
         in get_request (emit st requestStarted) endpoint ''fetchLocalTracks'' [] [] folderPath 0))"

text \<open>
  How a call ends: it returns, or the process stops on an arithmetic fault, with the state
  reached at that point.
\<close>

datatype 'd call_result = Returned "'d TFMApiClient" | Faulted "'d TFMApiClient"

text \<open>
  \<open>offset / limit\<close> is C++ integer division on \<open>int\<close>, which truncates. With \<open>limit = 0\<close>,
  and with \<open>offset = INT_MIN\<close> and \<open>limit = -1\<close>, the division instruction faults: the
  call has emitted \<open>requestStarted\<close> and never reaches \<open>get\<close>. The \<open>+ 1\<close> wraps around.
\<close>

definition searchTracks ::
  "'d TFMApiClient \<Rightarrow> QString \<Rightarrow> cint \<Rightarrow> cint \<Rightarrow> 'd call_result" where
  "searchTracks st query offset limit =
     (if m_serverUrl st = [] then Returned (emit st (apiError not_configured))
      else
        (let st1 = emit st requestStarted in
         if limit = 0 \<or> (sint offset = - (2 ^ 31) \<and> sint limit = - 1) then Faulted st1
         else
           (let endpoint = arg_int (arg_int (arg
                             ''/api/mobile/channels/0/files?SearchText=%1&Page=%2&PageSize=%3''
                             query)
                             (word_of_int (sint offset sdiv sint limit) + 1)) limit
            in Returned (get_request st1 endpoint ''searchTracks'' [] [] [] 0))))"

section \<open>TFMApiClient: parsing\<close>

definition parseChannel :: "'d qt \<Rightarrow> QJsonObject \<Rightarrow> Channel" where
  "parseChannel Q json =
     \<lparr>ch_id = toLongLong Q (jvalue json ''id''),
      ch_name = toString (jvalue json ''name''),
      ch_imageUrl = toString (jvalue json ''imageUrl''),
      ch_isOwner = toBool (jvalue json ''isOwner'') False,
      ch_canPost = toBool (jvalue json ''canPost'') False,
      ch_isFavorite = toBool (jvalue json ''isFavorite'') False,
      ch_type = toString (jvalue json ''type''),
      ch_fileCount = toInt (jvalue json ''fileCount'') 0\<rparr>"

definition parseTrack :: "'d qt \<Rightarrow> QJsonObject \<Rightarrow> 'd Track" where
  "parseTrack Q json =
     \<lparr>tr_id = toString (jvalue json ''id''),
      tr_channelId = [],
      tr_name = toString (jvalue json ''name''),
      tr_path = toString (jvalue json ''path''),
      tr_parentId = toString (jvalue json ''parentId''),
      tr_size = toLongLong Q (jvalue json ''size''),
      tr_type = toString (jvalue json ''type''),
      tr_category = toString (jvalue json ''category''),
      tr_isFile = toBool (jvalue json ''isFile'') False,
      tr_isFolder = toBool (jvalue json ''isFolder'') False,
      tr_hasChildren = toBool (jvalue json ''hasChildren'') False,
      tr_streamUrl = toString (jvalue json ''streamUrl''),
      tr_downloadUrl = toString (jvalue json ''downloadUrl''),
      tr_thumbnailUrl = toString (jvalue json ''thumbnailUrl''),
      tr_dateCreated = fromISODate Q (toString (jvalue json ''dateCreated'')),
      tr_dateModified = fromISODate Q (toString (jvalue json ''dateModified''))\<rparr>"

definition parseFolder :: "QJsonObject \<Rightarrow> Folder" where
  "parseFolder json =
     \<lparr>fo_id = toString (jvalue json ''id''),
      fo_name = toString (jvalue json ''name''),
      fo_path = toString (jvalue json ''path''),
      fo_parentId = toString (jvalue json ''parentId''),
      fo_isFolder = toBool (jvalue json ''isFolder'') False,
      fo_hasChildren = toBool (jvalue json ''hasChildren'') False\<rparr>"

definition parsePagination :: "QJsonObject \<Rightarrow> PaginationInfo" where
  "parsePagination responseObj =
     (let info = PaginationInfo_init;
          paginationVal = jvalue responseObj ''pagination''
      in if isObject paginationVal then
           (let pagination = toObject paginationVal in
            info\<lparr>page := toInt (jvalue pagination ''page'') 1,
                 pageSize := toInt (jvalue pagination ''pageSize'') 100,
                 totalItems := toInt (jvalue pagination ''totalItems'') 0,
                 totalPages := toInt (jvalue pagination ''totalPages'') 1,
                 hasNext := toBool (jvalue pagination ''hasNext'') False,
                 hasPrevious := toBool (jvalue pagination ''hasPrevious'') False\<rparr>)
         else info)"

section \<open>TFMApiClient: handleResponse and onReplyFinished\<close>

definition doc_object :: "QJsonValue \<Rightarrow> QJsonObject" where
  "doc_object doc = toObject doc"

text \<open>Lines 291-297: the message of a failed envelope.\<close>

definition envelopeError :: "QJsonObject \<Rightarrow> QString" where
  "envelopeError responseObj =
     (let e1 = toString (jvalue responseObj ''error'');
          e2 = (if e1 = [] then toString (jvalue responseObj ''message'') else e1)
      in if e2 = [] then ''Unknown API error'' else e2)"

text \<open>Lines 321-329 and 374-382: the item array, directly under \<open>data\<close> or under \<open>data.items\<close>.\<close>

definition itemsArray :: "QJsonValue \<Rightarrow> QJsonValue list" where
  "itemsArray dataVal =
     (if isArray dataVal then toArray dataVal
      else if isObject dataVal then
        (let dataObj = toObject dataVal in
         if jcontains dataObj ''items'' then toArray (jvalue dataObj ''items'') else [])
      else [])"

text \<open>Lines 331-335 and 384-388: every element parsed and stamped with the channel id.\<close>

definition parseTracksOf :: "'d qt \<Rightarrow> QString \<Rightarrow> QJsonValue list \<Rightarrow> 'd Track list" where
  "parseTracksOf Q channelId arr =
     map (\<lambda>val. (parseTrack Q (toObject val))\<lparr>tr_channelId := channelId\<rparr>) arr"

text \<open>
  Lines 343-350 and 396-404: the entry of \<open>requestKey\<close> is created when missing, then the
  tracks are appended and the page counters stored.
\<close>

definition accumulate ::
  "'d TFMApiClient \<Rightarrow> QString \<Rightarrow> QString \<Rightarrow> QString \<Rightarrow> 'd Track list \<Rightarrow> PaginationInfo
     \<Rightarrow> 'd TFMApiClient" where
  "accumulate st requestKey channelId folderId tracks pagination =
     (let pr0 = (case m_paginatedRequests st requestKey of
                   None \<Rightarrow> PaginatedRequest_init\<lparr>pr_channelId := channelId, pr_folderId := folderId\<rparr>
                 | Some pr \<Rightarrow> pr);
          pr1 = pr0\<lparr>accumulatedTracks := accumulatedTracks pr0 @ tracks,
                    currentPage := page pagination,
                    pr_totalPages := totalPages pagination\<rparr>
      in st\<lparr>m_paginatedRequests := (m_paginatedRequests st)(requestKey \<mapsto> pr1)\<rparr>)"

text \<open>\<open>m_paginatedRequests[requestKey].accumulatedTracks\<close> followed by \<open>remove(requestKey)\<close>.\<close>

definition takeAccumulated :: "'d TFMApiClient \<Rightarrow> QString \<Rightarrow> 'd Track list \<times> 'd TFMApiClient" where
  "takeAccumulated st requestKey =
     ((case m_paginatedRequests st requestKey of None \<Rightarrow> [] | Some pr \<Rightarrow> accumulatedTracks pr),
      st\<lparr>m_paginatedRequests := (m_paginatedRequests st)(requestKey := None)\<rparr>)"

text \<open>The branch of \<open>fetchChannelTracks\<close> (lines 312-362).\<close>

definition handleChannelTracks ::
  "'d qt \<Rightarrow> 'd TFMApiClient \<Rightarrow> PendingReply \<Rightarrow> QJsonObject \<Rightarrow> 'd TFMApiClient" where
  "handleChannelTracks Q st reply responseObj =
     (let channelId = prop_channelId reply;
          tracks = parseTracksOf Q channelId (itemsArray (jvalue responseObj ''data''));
          pagination = parsePagination responseObj;
          requestKey = ''channel:'' @ channelId;
          st1 = accumulate st requestKey channelId [] tracks pagination
      in if hasNext pagination then
           fetchChannelTracksPage st1 channelId (page pagination + 1) (pageSize pagination)
         else
           (let (allTracks, st2) = takeAccumulated st1 requestKey
            in emit st2 (tracksLoaded channelId allTracks)))"

text \<open>The branch of \<open>fetchFolderContents\<close> (lines 364-416).\<close>

definition handleFolderContents ::
  "'d qt \<Rightarrow> 'd TFMApiClient \<Rightarrow> PendingReply \<Rightarrow> QJsonObject \<Rightarrow> 'd TFMApiClient" where
  "handleFolderContents Q st reply responseObj =
     (let channelId = prop_channelId reply;
          folderId = prop_folderId reply;
          items = parseTracksOf Q channelId (itemsArray (jvalue responseObj ''data''));
          pagination = parsePagination responseObj;
          requestKey = ''folder:'' @ channelId @ '':'' @ folderId;
          st1 = accumulate st requestKey channelId folderId items pagination
      in if hasNext pagination then
           fetchFolderContentsPage st1 channelId folderId (page pagination + 1)
             (pageSize pagination)
         else
           (let (allItems, st2) = takeAccumulated st1 requestKey
            in emit st2 (folderContentsLoaded channelId folderId allItems)))"

text \<open>The branch of \<open>fetchLocalFolders\<close> and \<open>fetchLocalTracks\<close> (lines 428-462).\<close>

definition handleLocal ::
  "'d qt \<Rightarrow> 'd TFMApiClient \<Rightarrow> PendingReply \<Rightarrow> QJsonObject \<Rightarrow> 'd TFMApiClient" where
  "handleLocal Q st reply responseObj =
     (let dataVal = jvalue responseObj ''data'';
          itemsArr = (if isObject dataVal then toArray (jvalue (toObject dataVal) ''items'')
                      else [])
      in if requestType reply = ''fetchLocalFolders'' then
           emit st (localFoldersLoaded
             (map parseFolder
                (filter (\<lambda>item. toBool (jvalue item ''isFolder'') False)
                   (map toObject itemsArr))))
         else
           emit st (localTracksLoaded (prop_folderPath reply)
             (map (\<lambda>val. parseTrack Q (toObject val)) itemsArr)))"

definition handleResponse ::
  "'d qt \<Rightarrow> 'd TFMApiClient \<Rightarrow> PendingReply \<Rightarrow> json_parse \<Rightarrow> 'd TFMApiClient" where
  "handleResponse Q st reply parsed =
     (case parsed of
        ParseError errorString \<Rightarrow>
          emit st (apiError (arg ''JSON parse error: %1'' errorString))
      | Parsed doc \<Rightarrow>
          (let responseObj = doc_object doc;
               success = toBool (jvalue responseObj ''success'') False
           in if \<not> success then emit st (apiError (envelopeError responseObj))
              else if requestType reply = ''fetchChannels'' then
                emit st (channelsLoaded
                  (map (\<lambda>val. parseChannel Q (toObject val))
                     (toArray (jvalue responseObj ''data''))))
              else if requestType reply = ''fetchChannelTracks'' then
                handleChannelTracks Q st reply responseObj
              else if requestType reply = ''fetchFolderContents'' then
                handleFolderContents Q st reply responseObj
              else if requestType reply = ''fetchFavorites'' then
                emit st (favoritesLoaded
                  (map (\<lambda>val. (parseChannel Q (toObject val))\<lparr>ch_isFavorite := True\<rparr>)
                     (toArray (jvalue responseObj ''data''))))
              else if requestType reply = ''fetchLocalFolders''
                      \<or> requestType reply = ''fetchLocalTracks'' then
                handleLocal Q st reply responseObj
              else if requestType reply = ''searchTracks'' then
                emit st (searchResultsReady
                  (map (\<lambda>val. parseTrack Q (toObject val))
                     (toArray (jvalue responseObj ''data''))))
              else st))"

text \<open>
  How a reply finishes: with a network error and its message, or with bytes, given here
  by what the JSON parser makes of them.
\<close>

datatype reply_result = NetError QString | Payload json_parse

definition onReplyFinished ::
  "'d qt \<Rightarrow> 'd TFMApiClient \<Rightarrow> PendingReply \<Rightarrow> reply_result \<Rightarrow> 'd TFMApiClient" where
  "onReplyFinished Q st reply res =
     (let st1 = st\<lparr>m_pendingReplies := removeAll reply (m_pendingReplies st)\<rparr>;
          st2 = emit st1 requestFinished
      in case res of
           NetError errorString \<Rightarrow> emit st2 (apiError (arg ''Network error: %1'' errorString))
         | Payload parsed \<Rightarrow> handleResponse Q st2 reply parsed)"

subsection \<open>Page responses, in the words of the spec\<close>

text \<open>
  A page response that parses, has \<open>success = true\<close> and whose pagination says \<open>hasNext = hn\<close>;
  and the entries of a page, in array order.
\<close>

definition pageOk :: "QJsonValue \<Rightarrow> bool \<Rightarrow> bool" where
  "pageOk doc hn =
     (toBool (jvalue (doc_object doc) ''success'') False
      \<and> hasNext (parsePagination (doc_object doc)) = hn)"

definition pageItems :: "'d qt \<Rightarrow> QString \<Rightarrow> QJsonValue \<Rightarrow> 'd Track list" where
  "pageItems Q channelId doc =
     parseTracksOf Q channelId (itemsArray (jvalue (doc_object doc) ''data''))"

text \<open>A failed envelope: malformed JSON, or \<open>success\<close> not \<open>true\<close>.\<close>

definition envelopeFailed :: "json_parse \<Rightarrow> bool" where
  "envelopeFailed parsed =
     (case parsed of
        ParseError _ \<Rightarrow> True
      | Parsed doc \<Rightarrow> \<not> toBool (jvalue (doc_object doc) ''success'') False)"

text \<open>The accumulation stored for a key, empty when there is none.\<close>

definition stored :: "'d TFMApiClient \<Rightarrow> QString \<Rightarrow> 'd Track list" where
  "stored st requestKey =
     (case m_paginatedRequests st requestKey of None \<Rightarrow> [] | Some pr \<Rightarrow> accumulatedTracks pr)"

subsection \<open>Replies delivered in sequence\<close>

text \<open>Which key a reply belongs to, by the properties set on it when it was requested.\<close>

definition forChannel :: "QString \<Rightarrow> PendingReply \<Rightarrow> bool" where
  "forChannel channelId reply =
     (requestType reply = ''fetchChannelTracks'' \<and> prop_channelId reply = channelId)"

definition forFolder :: "QString \<Rightarrow> QString \<Rightarrow> PendingReply \<Rightarrow> bool" where
  "forFolder channelId folderId reply =
     (requestType reply = ''fetchFolderContents'' \<and> prop_channelId reply = channelId
      \<and> prop_folderId reply = folderId)"

text \<open>The event loop handing finished replies with parsed documents to the client, in order.\<close>

fun deliver ::
  "'d qt \<Rightarrow> 'd TFMApiClient \<Rightarrow> (PendingReply \<times> QJsonValue) list \<Rightarrow> 'd TFMApiClient" where
  "deliver Q st [] = st"
| "deliver Q st (e # rest) =
     deliver Q (onReplyFinished Q st (fst e) (Payload (Parsed (snd e)))) rest"

subsection \<open>Example client, pages and runs\<close>

definition ex_qt :: "unit qt" where
  "ex_qt = \<lparr>toLongLong = (\<lambda>v. 0), fromISODate = (\<lambda>s. ()), toPercentEncoding = (\<lambda>s. s)\<rparr>"

definition ex_client :: "QString \<Rightarrow> unit TFMApiClient" where
  "ex_client url =
     \<lparr>m_serverUrl = url, m_localFolder = [], m_pendingReplies = [],
      m_paginatedRequests = Map.empty, network = [], emitted = []\<rparr>"

text \<open>A successful page whose items carry only an id.\<close>

definition ex_page :: "QString list \<Rightarrow> bool \<Rightarrow> QJsonValue" where
  "ex_page ids hn =
     Object [(''success'', Bool True),
             (''data'', Array (map (\<lambda>i. Object [(''id'', String i)]) ids)),
             (''pagination'', Object [(''hasNext'', Bool hn)])]"

definition ex_track :: "QString \<Rightarrow> QString \<Rightarrow> unit Track" where
  "ex_track cid i = (parseTrack ex_qt [(''id'', String i)])\<lparr>tr_channelId := cid\<rparr>"

text \<open>
  A fetch of channel 7 whose first page (item \<open>a\<close>, more to come) has been handled: the
  request for page 2 is in flight.
\<close>

definition ex_first_fetch :: "unit TFMApiClient" where
  "ex_first_fetch =
     (let st1 = fetchChannelTracks (ex_client ''http://h'') ''7'' 0 100
      in onReplyFinished ex_qt st1 (network st1 ! 0) (Payload (Parsed (ex_page [''a''] True))))"

text \<open>Page 2 of that fetch comes back with \<open>success = false\<close>.\<close>

definition ex_failed :: "unit TFMApiClient" where
  "ex_failed =
     onReplyFinished ex_qt ex_first_fetch (network ex_first_fetch ! 1)
       (Payload (Parsed (Object [(''success'', Bool False)])))"

text \<open>
  A second fetch of channel 7 is started while the first fetch's page 2 request
  (request 1) is still in flight; it issues request 2.
\<close>

definition ex_second_fetch :: "unit TFMApiClient" where
  "ex_second_fetch = fetchChannelTracks ex_first_fetch ''7'' 0 100"

text \<open>
  Then three replies arrive: to request 2 (the second fetch's page 1: item \<open>c\<close>, more to
  come; this issues request 3), to request 1 (the first fetch's page 2: item \<open>b\<close>, last
  page), and to request 3 (the second fetch's page 2: item \<open>d\<close>, last page).
\<close>

definition ex_second_page1 :: "unit TFMApiClient" where
  "ex_second_page1 =
     onReplyFinished ex_qt ex_second_fetch (network ex_second_fetch ! 2)
       (Payload (Parsed (ex_page [''c''] True)))"

definition ex_stale_page2 :: "unit TFMApiClient" where
  "ex_stale_page2 =
     onReplyFinished ex_qt ex_second_page1 (network ex_second_page1 ! 1)
       (Payload (Parsed (ex_page [''b''] False)))"

definition ex_second_page2 :: "unit TFMApiClient" where
  "ex_second_page2 =
     onReplyFinished ex_qt ex_stale_page2 (network ex_stale_page2 ! 3)
       (Payload (Parsed (ex_page [''d''] False)))"

section \<open>Properties of the download and cache layer\<close>

lemma left_append_drop: "left (a @ b) (length (a @ b) - length b) = a"
  by (simp add: left_def)

lemma endsWith_ci_append: "endsWith_ci (a @ b) b"
  by (simp add: endsWith_ci_def)

lemma isHttpUrl_nonempty: "isHttpUrl location \<Longrightarrow> location \<noteq> []"
  by (auto simp: isHttpUrl_def startsWith_def)

lemma getTrackLocation_removed:
  assumes "getTrackLocation w r = location" and "location \<noteq> localPath"
    and "files w localPath = Some cachedFile" and "isRegular cachedFile"
  shows "getTrackLocation (w\<lparr>files := (files w)(localPath := None)\<rparr>) r = location"
  using assms unfolding getTrackLocation_def Let_def isFile_def
  by (auto split: if_splits option.splits)

lemma probeCache_absent:
  "files w localPath = None \<Longrightarrow> probeCache w localPath expectedSize location = (location, w)"
  by (simp add: probeCache_def)

lemma probeCache_valid:
  "files w localPath = Some cachedFile \<Longrightarrow> 1000 <s fsize cachedFile \<Longrightarrow>
   expectedSize \<le>s 0 \<or> fsize cachedFile = expectedSize \<Longrightarrow>
   probeCache w localPath expectedSize location = (localPath, w)"
  by (simp add: probeCache_def Let_def)

lemma probeCache_invalid:
  "files w localPath = Some cachedFile \<Longrightarrow> isRegular cachedFile \<Longrightarrow>
   \<not> (1000 <s fsize cachedFile \<and> (expectedSize \<le>s 0 \<or> fsize cachedFile = expectedSize)) \<Longrightarrow>
   probeCache w localPath expectedSize location
     = (location, w\<lparr>files := (files w)(localPath := None)\<rparr>)"
  by (auto simp add: probeCache_def Let_def QFile_remove_def)

text \<open>
  C1 as stated fails. The row's \<open>local_path\<close> is an existing file, so \<open>getTrackLocation\<close>
  returns it and \<open>getTrack\<close> never looks at the cache: a 10-byte file at the derived cache
  path is not deleted, and a valid 5000-byte one (expected size 5000) is not the path
  returned.
\<close>

theorem cache_not_probed_counterexample:
  "localPathOf (\<lambda>u. ''/f'') ''/cache'' ex_row_local ''/music/song.mp3'' = ''/cache/abc.mp3''
   \<and> fld_file_size ex_row_local = 5000
   \<and> getTrackLocation (ex_world_local 10) ex_row_local = ''/music/song.mp3''
   \<and> files (ex_world_local 10) ''/cache/abc.mp3'' = Some \<lparr>isRegular = True, fsize = 10\<rparr>
   \<and> \<not> 1000 <s (10 :: qint64)
   \<and> getTrack (\<lambda>u. ''/f'') TimedOut ex_disk ''/cache'' (ex_world_local 10) ex_row_local
       = (Some ''/music/song.mp3'', ex_world_local 10)
   \<and> files (ex_world_local 5000) ''/cache/abc.mp3'' = Some \<lparr>isRegular = True, fsize = 5000\<rparr>
   \<and> 1000 <s (5000 :: qint64)
   \<and> getTrack (\<lambda>u. ''/f'') TimedOut ex_disk ''/cache'' (ex_world_local 5000) ex_row_local
       = (Some ''/music/song.mp3'', ex_world_local 5000)"
proof -
  have lp: "localPathOf (\<lambda>u. ''/f'') ''/cache'' ex_row_local ''/music/song.mp3''
              = ''/cache/abc.mp3''"
    by code_simp
  have loc: "getTrackLocation (ex_world_local sz) ex_row_local = ''/music/song.mp3''" for sz
    by (simp add: getTrackLocation_def ex_world_local_def ex_row_local_def ex_row_def isFile_def)
  have nourl: "\<not> isHttpUrl ''/music/song.mp3''"
    by (simp add: isHttpUrl_def startsWith_def)
  have g: "getTrack (\<lambda>u. ''/f'') TimedOut ex_disk ''/cache'' (ex_world_local sz) ex_row_local
             = (Some ''/music/song.mp3'', ex_world_local sz)" for sz
    by (simp add: getTrack_def Let_def loc nourl)
  have f: "files (ex_world_local sz) ''/cache/abc.mp3'' = Some \<lparr>isRegular = True, fsize = sz\<rparr>"
    for sz
    by (simp add: ex_world_local_def)
  have s: "fld_file_size ex_row_local = 5000" by (simp add: ex_row_local_def ex_row_def)
  have c: "\<not> 1000 <s (10 :: qint64)" "1000 <s (5000 :: qint64)"
    by (simp_all add: word_sless_alt)
  show ?thesis using lp loc g f s c by blast
qed

text \<open>
  C1 (amended). Let a regular file of size \<open>fsize cachedFile\<close> exist at the derived cache
  path of a row. If the row's location is an http(s) URL (its \<open>local_path\<close> is not an
  existing file), the probe switches to the cache path iff the size exceeds 1000 and the
  expected size is unknown (\<open>\<le> 0\<close>) or equal to it; in that case \<open>getTrack\<close> returns the
  cache path and leaves the file system and the download manager untouched; in every
  other case the file is gone after the probe, a second probe finds nothing and changes
  nothing, and \<open>getTrack\<close> behaves exactly as on the file system without the file. If the
  location is not an http(s) URL, \<open>getTrack\<close> returns it and touches nothing: the cache is
  not probed.
\<close>

theorem cache_reuse_law:
  assumes ex: "files w localPath = Some cachedFile" and reg: "isRegular cachedFile"
    and loc: "getTrackLocation w r = location"
    and lp: "localPathOf urlPath m_cacheDir r location = localPath"
    and ne: "location \<noteq> localPath"
    and es: "expectedSize = fld_file_size r"
  shows "(isHttpUrl location \<longrightarrow>
          (fst (probeCache w localPath expectedSize location) = localPath
             \<longleftrightarrow> 1000 <s fsize cachedFile
                  \<and> (expectedSize \<le>s 0 \<or> fsize cachedFile = expectedSize))
        \<and> (1000 <s fsize cachedFile \<and> (expectedSize \<le>s 0 \<or> fsize cachedFile = expectedSize)
             \<longrightarrow> getTrack urlPath net io m_cacheDir w r = (Some localPath, w))
        \<and> (\<not> (1000 <s fsize cachedFile
                \<and> (expectedSize \<le>s 0 \<or> fsize cachedFile = expectedSize))
             \<longrightarrow> files (snd (probeCache w localPath expectedSize location)) localPath = None
               \<and> probeCache (snd (probeCache w localPath expectedSize location))
                     localPath expectedSize location
                   = (location, snd (probeCache w localPath expectedSize location))
               \<and> getTrack urlPath net io m_cacheDir w r
                   = getTrack urlPath net io m_cacheDir
                       (w\<lparr>files := (files w)(localPath := None)\<rparr>) r))
       \<and> (location \<noteq> [] \<and> \<not> isHttpUrl location \<longrightarrow>
            getTrack urlPath net io m_cacheDir w r = (Some location, w))"
proof (cases "isHttpUrl location")
  case url: True
  have law: "(fst (probeCache w localPath expectedSize location) = localPath
             \<longleftrightarrow> 1000 <s fsize cachedFile
                  \<and> (expectedSize \<le>s 0 \<or> fsize cachedFile = expectedSize))
        \<and> (1000 <s fsize cachedFile \<and> (expectedSize \<le>s 0 \<or> fsize cachedFile = expectedSize)
             \<longrightarrow> getTrack urlPath net io m_cacheDir w r = (Some localPath, w))
        \<and> (\<not> (1000 <s fsize cachedFile
                \<and> (expectedSize \<le>s 0 \<or> fsize cachedFile = expectedSize))
             \<longrightarrow> files (snd (probeCache w localPath expectedSize location)) localPath = None
               \<and> probeCache (snd (probeCache w localPath expectedSize location))
                     localPath expectedSize location
                   = (location, snd (probeCache w localPath expectedSize location))
               \<and> getTrack urlPath net io m_cacheDir w r
                   = getTrack urlPath net io m_cacheDir
                       (w\<lparr>files := (files w)(localPath := None)\<rparr>) r)"
  proof (cases "1000 <s fsize cachedFile
                \<and> (expectedSize \<le>s 0 \<or> fsize cachedFile = expectedSize)")
    case True
    then have p: "probeCache w localPath expectedSize location = (localPath, w)"
      using ex by (simp add: probeCache_valid)
    have "location \<noteq> []" using url by (rule isHttpUrl_nonempty)
    then have "getTrack urlPath net io m_cacheDir w r = (Some localPath, w)"
      using loc url lp es p by (simp add: getTrack_def Let_def)
    moreover have "fst (probeCache w localPath expectedSize location) = localPath"
      using p by simp
    ultimately show ?thesis using True by blast
  next
    case False
    let ?w' = "w\<lparr>files := (files w)(localPath := None)\<rparr>"
    have p: "probeCache w localPath expectedSize location = (location, ?w')"
      using ex reg False by (rule probeCache_invalid)
    have p': "probeCache ?w' localPath expectedSize location = (location, ?w')"
      by (simp add: probeCache_absent)
    have loc': "getTrackLocation ?w' r = location"
      using loc ne ex reg by (rule getTrackLocation_removed)
    have "location \<noteq> []" using url by (rule isHttpUrl_nonempty)
    then have g: "getTrack urlPath net io m_cacheDir w r
                    = getTrack urlPath net io m_cacheDir ?w' r"
      using loc loc' url lp es p p' by (simp add: getTrack_def Let_def)
    have a: "fst (probeCache w localPath expectedSize location) \<noteq> localPath"
      using p ne by simp
    have b: "files (snd (probeCache w localPath expectedSize location)) localPath = None"
      using p by simp
    have c: "probeCache (snd (probeCache w localPath expectedSize location))
               localPath expectedSize location
             = (location, snd (probeCache w localPath expectedSize location))"
      using p p' by simp
    show ?thesis using False a b c g by blast
  qed
  with url show ?thesis by blast
next
  case nourl: False
  have "getTrack urlPath net io m_cacheDir w r = (Some location, w)" if "location \<noteq> []"
    using that loc nourl by (simp add: getTrack_def Let_def)
  with nourl show ?thesis by blast
qed

text \<open>
  The scenario of the spec: expected size 5000, a cached file of 5000 bytes at the
  derived path; \<open>getTrack\<close> returns that path and no request is made.
\<close>

theorem cache_reuse_law_witness:
  "files ex_world ''/cache/abc.mp3'' = Some \<lparr>isRegular = True, fsize = 5000\<rparr>
   \<and> getTrackLocation ex_world ex_row = ''http://h/f''
   \<and> isHttpUrl ''http://h/f''
   \<and> localPathOf (\<lambda>u. ''/f'') ''/cache'' ex_row ''http://h/f'' = ''/cache/abc.mp3''
   \<and> getTrack (\<lambda>u. ''/f'') TimedOut ex_disk ''/cache'' ex_world ex_row
       = (Some ''/cache/abc.mp3'', ex_world)"
proof -
  have h1: "files ex_world ''/cache/abc.mp3'' = Some \<lparr>isRegular = True, fsize = 5000\<rparr>"
    by (simp add: ex_world_def)
  have h2: "isRegular \<lparr>isRegular = True, fsize = 5000 :: qint64\<rparr>" by simp
  have h3: "getTrackLocation ex_world ex_row = ''http://h/f''"
    by (simp add: getTrackLocation_def ex_world_def ex_row_def startsWith_def isFile_def)
  have h4: "isHttpUrl ''http://h/f''" by (simp add: isHttpUrl_def startsWith_def)
  have h5: "localPathOf (\<lambda>u. ''/f'') ''/cache'' ex_row ''http://h/f'' = ''/cache/abc.mp3''"
    by code_simp
  have h6: "''http://h/f'' \<noteq> ''/cache/abc.mp3''" by simp
  have h7: "(5000 :: qint64) = fld_file_size ex_row" by (simp add: ex_row_def)
  from cache_reuse_law [OF h1 h2 h3 h5 h6 h7, of TimedOut ex_disk] h1 h3 h4 h5
  show ?thesis by simp
qed

text \<open>
  C7 (HTTP error and content-type gate). A finished reply whose status is not 200, or
  whose Content-Type contains \<open>text/html\<close> in any letter case, makes \<open>downloadTrackSync\<close>
  return the empty path, and the file system is the one it started with.
\<close>

theorem http_status_and_html_gate:
  "statusCode reply \<noteq> 200 \<or> contains_ci (contentType reply) ''text/html'' \<Longrightarrow>
   fst (downloadTrackSync (Finished reply) io url destPath expectedSize w) = [] \<and>
   files (snd (downloadTrackSync (Finished reply) io url destPath expectedSize w)) = files w"
  by (auto simp: downloadTrackSync_def Let_def)

theorem http_status_and_html_gate_witness:
  "statusCode (ex_reply 404 ''audio/mpeg'' [1, 2, 3, 4]) \<noteq> 200
   \<and> fst (downloadTrackSync (Finished (ex_reply 404 ''audio/mpeg'' [1, 2, 3, 4])) ex_disk
            ''http://h/f'' ''/cache/x.mp3'' 0 \<lparr>files = Map.empty, requested = []\<rparr>) = []
   \<and> files (snd (downloadTrackSync (Finished (ex_reply 404 ''audio/mpeg'' [1, 2, 3, 4])) ex_disk
            ''http://h/f'' ''/cache/x.mp3'' 0 \<lparr>files = Map.empty, requested = []\<rparr>))
       = Map.empty"
proof -
  have h: "statusCode (ex_reply 404 ''audio/mpeg'' [1, 2, 3, 4]) \<noteq> 200
           \<or> contains_ci (contentType (ex_reply 404 ''audio/mpeg'' [1, 2, 3, 4])) ''text/html''"
    by (simp add: ex_reply_def)
  from http_status_and_html_gate [OF h, of ex_disk "''http://h/f''" "''/cache/x.mp3''" 0
         "\<lparr>files = Map.empty, requested = []\<rparr>"]
  show ?thesis by (simp add: ex_reply_def)
qed

text \<open>
  C9 (empty body rejected). A finished reply with no bytes makes \<open>downloadTrackSync\<close>
  return the empty path and leave the file system as it was, whatever the Content-Length
  and the expected size are; so a returned path always comes with at least one byte.
\<close>

theorem empty_body_rejected:
  "body reply = [] \<Longrightarrow>
   fst (downloadTrackSync (Finished reply) io url destPath expectedSize w) = [] \<and>
   files (snd (downloadTrackSync (Finished reply) io url destPath expectedSize w)) = files w"
  by (auto simp: downloadTrackSync_def Let_def)

theorem empty_body_rejected_witness:
  "body (ex_reply 200 ''audio/mpeg'' []) = []
   \<and> contentLength (ex_reply 200 ''audio/mpeg'' []) = 0
   \<and> fst (downloadTrackSync (Finished (ex_reply 200 ''audio/mpeg'' [])) ex_disk
            ''http://h/f'' ''/cache/x.mp3'' 0 \<lparr>files = Map.empty, requested = []\<rparr>) = []
   \<and> files (snd (downloadTrackSync (Finished (ex_reply 200 ''audio/mpeg'' [])) ex_disk
            ''http://h/f'' ''/cache/x.mp3'' 0 \<lparr>files = Map.empty, requested = []\<rparr>))
       = Map.empty"
proof -
  have h: "body (ex_reply 200 ''audio/mpeg'' []) = []" by (simp add: ex_reply_def)
  from empty_body_rejected [OF h, of ex_disk "''http://h/f''" "''/cache/x.mp3''" 0
         "\<lparr>files = Map.empty, requested = []\<rparr>"]
  show ?thesis by (simp add: ex_reply_def)
qed

text \<open>
  C10 as stated fails: an identifier that ends with the extension twice keeps one of
  them after the single strip, and the derived name ends with two occurrences.
\<close>

theorem doubled_extension_counterexample:
  "getFileExtension (\<lambda>u. ''/f'') ''Song.mp3'' ''http://h/f'' = ''.mp3''
   \<and> endsWith_ci (sanitize ''a.mp3.mp3'') ''.mp3''
   \<and> cacheFileName (sanitize ''a.mp3.mp3'') ''.mp3'' = ''a.mp3.mp3''
   \<and> \<not> ends_with_exactly_one (cacheFileName (sanitize ''a.mp3.mp3'') ''.mp3'') ''.mp3''"
  by code_simp

text \<open>
  C10 (amended). The derived name always ends with the extension. When the sanitized
  identifier ends with the extension (ignoring case), one trailing occurrence is cut
  before the extension is appended, and the derived name ends with exactly one
  occurrence iff the identifier without that suffix does not end with the extension
  again.
\<close>

theorem single_strip_of_extension:
  "endsWith_ci (cacheFileName sid ext) ext \<and>
   (endsWith_ci sid ext \<longrightarrow>
      cacheFileName sid ext = left sid (length sid - length ext) @ ext \<and>
      (ends_with_exactly_one (cacheFileName sid ext) ext
         \<longleftrightarrow> \<not> endsWith_ci (left sid (length sid - length ext)) ext))"
  unfolding cacheFileName_def Let_def ends_with_exactly_one_def
  by (simp add: left_append_drop endsWith_ci_append del: length_append)

theorem single_strip_of_extension_witness:
  "endsWith_ci ''abc.MP3'' ''.mp3''
   \<and> cacheFileName ''abc.MP3'' ''.mp3'' = ''abc.mp3''
   \<and> ends_with_exactly_one (cacheFileName ''abc.MP3'' ''.mp3'') ''.mp3''"
proof -
  have h: "endsWith_ci ''abc.MP3'' ''.mp3''" by code_simp
  have n: "\<not> endsWith_ci (left ''abc.MP3'' (length ''abc.MP3'' - length ''.mp3'')) ''.mp3''"
    by code_simp
  have l: "left ''abc.MP3'' (length ''abc.MP3'' - length ''.mp3'') @ ''.mp3'' = ''abc.mp3''"
    by code_simp
  from single_strip_of_extension [of "''abc.MP3''" "''.mp3''"] h n l
  show ?thesis by metis
qed

subsection \<open>The double-precision 99 percent test\<close>

lemma bitlen_nat_le: "N < 2 ^ k \<Longrightarrow> bitlen_nat N \<le> k"
proof (induction N arbitrary: k rule: bitlen_nat.induct)
  case (1 N)
  show ?case
  proof (cases "N = 0")
    case True
    then show ?thesis by (simp add: bitlen_nat.simps)
  next
    case False
    with "1.prems" obtain k' where k: "k = Suc k'" by (cases k) auto
    with "1.prems" have "N div 2 < 2 ^ k'" by auto
    from "1.IH" [OF False this] show ?thesis using False k
      by (simp add: bitlen_nat.simps [of N])
  qed
qed

lemma bitlen_nat_lower: "N \<noteq> 0 \<Longrightarrow> 2 ^ (bitlen_nat N - 1) \<le> N"
proof (induction N rule: bitlen_nat.induct)
  case (1 N)
  show ?case
  proof (cases "N div 2 = 0")
    case True
    then have "bitlen_nat N = 1" using "1.prems"
      by (simp add: bitlen_nat.simps [of N] bitlen_nat.simps [of 0])
    then show ?thesis using "1.prems" by simp
  next
    case False
    from "1.IH" [OF "1.prems" False] have ih: "2 ^ (bitlen_nat (N div 2) - 1) \<le> N div 2" .
    have pos: "bitlen_nat (N div 2) \<noteq> 0" using False by (simp add: bitlen_nat.simps [of "N div 2"])
    have "bitlen_nat N - 1 = Suc (bitlen_nat (N div 2) - 1)"
      using "1.prems" pos by (simp add: bitlen_nat.simps [of N])
    then have "(2::nat) ^ (bitlen_nat N - 1) = 2 * 2 ^ (bitlen_nat (N div 2) - 1)" by simp
    also have "\<dots> \<le> 2 * (N div 2)" using ih by simp
    also have "\<dots> \<le> N" by simp
    finally show ?thesis .
  qed
qed

lemma rne53_small: "N < 2 ^ 53 \<Longrightarrow> rne53 N = N"
proof -
  assume "N < 2 ^ 53"
  then have "bitlen_nat N - 53 = 0" using bitlen_nat_le [of N 53] by simp
  then show ?thesis by (simp add: rne53_def Let_def)
qed

lemma bitlen_nat_upper: "N < 2 ^ bitlen_nat N"
proof (induction N rule: bitlen_nat.induct)
  case (1 N)
  show ?case
  proof (cases "N = 0")
    case True
    then show ?thesis by simp
  next
    case False
    from "1.IH" [OF False] have "N div 2 < 2 ^ bitlen_nat (N div 2)" .
    then have "N < 2 * 2 ^ bitlen_nat (N div 2)" by linarith
    then show ?thesis using False by (simp add: bitlen_nat.simps [of N])
  qed
qed

lemma rne_arith:
  fixes q r P :: nat
  assumes "r < P"
  defines "m \<equiv> (if 2 * r > P \<or> (2 * r = P \<and> odd q) then q + 1 else q)"
  shows "2 * (m * P) \<le> 2 * (q * P + r) + P" and "2 * (q * P + r) \<le> 2 * (m * P) + P"
    and "m * P \<le> (q + 1) * P" and "q * P \<le> m * P"
  using assms(1) by (auto simp: m_def algebra_simps)

lemma rne53_bounds:
  fixes N :: nat
  defines "P \<equiv> 2 ^ (bitlen_nat N - 53)"
  shows "2 * rne53 N \<le> 2 * N + P" and "2 * N \<le> 2 * rne53 N + P"
    and "rne53 N \<le> (N div P + 1) * P" and "(N div P) * P \<le> rne53 N"
proof -
  define q where "q = N div P"
  define r where "r = N mod P"
  have N: "q * P + r = N" by (simp add: q_def r_def)
  have r: "r < P" unfolding P_def r_def by simp
  have R: "rne53 N = (if 2 * r > P \<or> (2 * r = P \<and> odd q) then q + 1 else q) * P"
    unfolding P_def q_def r_def by (simp add: rne53_def Let_def)
  show "2 * rne53 N \<le> 2 * N + P"
    using rne_arith(1) [OF r, of q] unfolding R N .
  show "2 * N \<le> 2 * rne53 N + P"
    using rne_arith(2) [OF r, of q] unfolding R N .
  show "rne53 N \<le> (N div P + 1) * P"
    using rne_arith(3) [OF r, of q] unfolding R q_def .
  show "(N div P) * P \<le> rne53 N"
    using rne_arith(4) [OF r, of q] unfolding R q_def .
qed

lemma rne53_large:
  assumes "2 ^ 53 \<le> N"
  shows "2 ^ 53 \<le> rne53 N"
proof -
  define k where "k = bitlen_nat N - 53"
  have N0: "N \<noteq> 0" using assms by auto
  have big: "53 < bitlen_nat N"
  proof (rule ccontr)
    assume "\<not> 53 < bitlen_nat N"
    then have "(2::nat) ^ bitlen_nat N \<le> 2 ^ 53" by (intro power_increasing) auto
    with bitlen_nat_upper [of N] assms show False by linarith
  qed
  then have k: "bitlen_nat N - 1 = 52 + k" "1 \<le> k" by (simp_all add: k_def)
  have "(2::nat) ^ 52 * 2 ^ k \<le> N"
    using bitlen_nat_lower [OF N0] unfolding k(1) by (simp add: power_add)
  then have q: "2 ^ 52 \<le> N div 2 ^ k"
    by (simp add: less_eq_div_iff_mult_less_eq)
  have "(2::nat) ^ 53 = 2 ^ 52 * 2 ^ 1" by simp
  also have "\<dots> \<le> 2 ^ 52 * 2 ^ k"
    using k(2) by (intro mult_le_mono2 power_increasing) auto
  also have "\<dots> \<le> (N div 2 ^ k) * 2 ^ k" using q by (rule mult_le_mono1)
  also have "\<dots> \<le> rne53 N" using rne53_bounds(4) [of N] by (simp add: k_def)
  finally show ?thesis .
qed

text \<open>The double product against the exact 99 percent, for sizes below 2^47.\<close>

lemma below99_exact:
  assumes c0: "0 < c" and c47: "c < 2 ^ 47"
  shows "below99 n c \<longleftrightarrow> 100 * n < 99 * c"
proof -
  define N where "N = c * double_099"
  define k where "k = bitlen_nat N - 53"
  define P :: nat where "P = 2 ^ k"
  define R where "R = rne53 N"
  define K :: nat where "K = 2 ^ 53"
  have rc: "rne53 c = c" using c47 by (intro rne53_small) (simp add: order_less_trans [of c "2 ^ 47"])
  have b: "below99 n c \<longleftrightarrow> rne53 n * K < R"
    by (simp add: below99_def rc N_def R_def K_def)
  have M: "100 * N + 8 * c = 99 * c * K"
    by (simp add: N_def double_099_def K_def)
  have "N < 2 ^ 47 * 2 ^ 53"
    unfolding N_def using c47 by (intro mult_strict_mono) (simp_all add: double_099_def)
  then have "N < 2 ^ 100" by simp
  then have "k \<le> 47" using bitlen_nat_le [of N 100] by (simp add: k_def)
  then have P47: "P \<le> 2 ^ 47" unfolding P_def by (intro power_increasing) auto
  have Pdvd: "P dvd K" unfolding P_def K_def using \<open>k \<le> 47\<close> by (intro le_imp_power_dvd) simp
  have up: "2 * R \<le> 2 * N + P" and lo: "2 * N \<le> 2 * R + P"
    and top: "R \<le> (N div P + 1) * P"
    using rne53_bounds(1,2,3) [of N] by (simp_all add: R_def P_def k_def)
  have Pn: "P \<le> 140737488355328" using P47 by simp
  have cn: "c < 140737488355328" using c47 by simp
  have Kn: "K = 9007199254740992" by (simp add: K_def)
  show ?thesis
  proof (cases "n < 2 ^ 53")
    case small: True
    then have rn: "rne53 n = n" by (rule rne53_small)
    show ?thesis
    proof (cases "100 * n < 99 * c")
      case True
      then have "(100 * n + 1) * K \<le> 99 * c * K" by (intro mult_le_mono1) simp
      then have "n * K < R" using M lo Pn cn unfolding Kn by (simp add: algebra_simps)
      then show ?thesis using True b rn by simp
    next
      case False
      have "\<not> n * K < R"
      proof (cases "100 * n = 99 * c")
        case True
        then have T: "100 * (n * K) = 100 * N + 8 * c" using M by simp
        then have "N < n * K" using c0 by linarith
        moreover have "N div P * P \<le> N" by simp
        ultimately have lt: "N div P * P < n * K" by linarith
        from Pdvd have "P dvd n * K" by (rule dvd_mult)
        then obtain t where "n * K = P * t" unfolding dvd_def by blast
        then have t: "n * K = t * P" by (simp add: mult.commute)
        from lt have "N div P < t" unfolding t by simp
        then have "(N div P + 1) * P \<le> t * P" by (intro mult_le_mono1) simp
        with top show ?thesis unfolding t by linarith
      next
        case ne: False
        with False have "99 * c + 1 \<le> 100 * n" by linarith
        then have "(99 * c + 1) * K \<le> 100 * n * K" by (rule mult_le_mono1)
        then show ?thesis using M up Pn unfolding Kn by (simp add: algebra_simps)
      qed
      then show ?thesis using False b rn by simp
    qed
  next
    case large: False
    then have "2 ^ 53 \<le> rne53 n" by (intro rne53_large) simp
    then have "K * K \<le> rne53 n * K" unfolding K_def by (rule mult_le_mono1)
    moreover have "R < K * K" using up Pn M cn unfolding Kn by (simp add: algebra_simps)
    ultimately have "\<not> rne53 n * K < R" by linarith
    moreover have "\<not> 100 * n < 99 * c" using large cn by simp
    ultimately show ?thesis using b by simp
  qed
qed


lemma rne53_pow_le:
  assumes "2 ^ j \<le> N"
  shows "2 ^ j \<le> rne53 N"
proof (cases "N < 2 ^ 53")
  case True
  then show ?thesis using assms by (simp add: rne53_small)
next
  case False
  define k where "k = bitlen_nat N - 53"
  have N0: "N \<noteq> 0" using False by auto
  have big: "53 < bitlen_nat N"
  proof (rule ccontr)
    assume "\<not> 53 < bitlen_nat N"
    then have "(2::nat) ^ bitlen_nat N \<le> 2 ^ 53" by (intro power_increasing) auto
    with bitlen_nat_upper [of N] False show False by linarith
  qed
  then have k: "bitlen_nat N - 1 = 52 + k" by (simp add: k_def)
  have "(2::nat) ^ j < 2 ^ bitlen_nat N" using assms bitlen_nat_upper [of N] by linarith
  then have "j < bitlen_nat N" by simp
  then have "j \<le> 52 + k" using k by linarith
  then have "(2::nat) ^ j \<le> 2 ^ (52 + k)" by (intro power_increasing) auto
  also have "\<dots> = 2 ^ 52 * 2 ^ k" by (simp add: power_add)
  also have "\<dots> \<le> (N div 2 ^ k) * 2 ^ k"
  proof (rule mult_le_mono1)
    have "(2::nat) ^ 52 * 2 ^ k \<le> N"
      using bitlen_nat_lower [OF N0] unfolding k by (simp add: power_add)
    then show "2 ^ 52 \<le> N div 2 ^ k" by (simp add: less_eq_div_iff_mult_less_eq)
  qed
  also have "\<dots> \<le> rne53 N" using rne53_bounds(4) [of N] by (simp add: k_def)
  finally show ?thesis .
qed

text \<open>A byte count that fits a 32-bit \<open>int\<close> against a size of 2^47 or more.\<close>

lemma below99_huge_size:
  assumes n31: "n < 2 ^ 31" and c47: "2 ^ 47 \<le> c"
  shows "below99 n c" and "100 * n < 99 * c"
proof -
  have "2 ^ 47 \<le> rne53 c" using c47 by (rule rne53_pow_le)
  then have "2 ^ 47 * 2 ^ 52 \<le> rne53 c * double_099"
    by (intro mult_mono) (simp_all add: double_099_def)
  then have "2 ^ 99 \<le> rne53 c * double_099" by simp
  then have big: "2 ^ 99 \<le> rne53 (rne53 c * double_099)" by (rule rne53_pow_le)
  have "n < 2 ^ 53" using n31 by (simp add: order_less_trans [of n "2 ^ 31"])
  then have rn: "rne53 n = n" by (rule rne53_small)
  have "n * 2 ^ 53 < 2 ^ 31 * 2 ^ 53" using n31 by simp
  also have "\<dots> \<le> (2::nat) ^ 99" by simp
  finally show "below99 n c" using big by (simp add: below99_def rn)
  show "100 * n < 99 * c" using n31 c47 by simp
qed

lemma below99_iff:
  assumes "0 < c" and "n < 2 ^ 31 \<or> c < 2 ^ 47"
  shows "below99 n c \<longleftrightarrow> 100 * n < 99 * c"
proof (cases "c < 2 ^ 47")
  case True
  with assms(1) show ?thesis by (rule below99_exact)
next
  case False
  with assms(2) have "n < 2 ^ 31" "2 ^ 47 \<le> c" by auto
  from below99_huge_size [OF this] show ?thesis by simp
qed

text \<open>
  Beyond that range the rounded product can sit on the wrong side of a byte count:
  4950000000000049 is less than 99 percent of 5000000000000050, and the test says no.
\<close>

lemma bitlen_nat_eq:
  assumes "2 ^ j \<le> N" and "N < 2 ^ Suc j"
  shows "bitlen_nat N = Suc j"
proof -
  have "bitlen_nat N \<le> Suc j" using assms(2) by (rule bitlen_nat_le)
  moreover have "(2::nat) ^ j < 2 ^ bitlen_nat N"
    using assms(1) bitlen_nat_upper [of N] by linarith
  then have "j < bitlen_nat N" by simp
  ultimately show ?thesis by linarith
qed

lemma below99_petabytes: "\<not> below99 4950000000000049 5000000000000050"
proof -
  have c: "rne53 5000000000000050 = 5000000000000050" by (rule rne53_small) simp
  have n: "rne53 4950000000000049 = 4950000000000049" by (rule rne53_small) simp
  have "bitlen_nat (5000000000000050 * double_099) = Suc 105"
    by (rule bitlen_nat_eq) (simp_all add: double_099_def)
  then have k: "bitlen_nat (5000000000000050 * double_099) - 53 = 53" by simp
  have "rne53 (5000000000000050 * double_099) = 4950000000000049 * 2 ^ 53"
    unfolding rne53_def Let_def k by (simp add: double_099_def)
  then show ?thesis by (simp add: below99_def c n)
qed

lemma word_sless_zero: "(0 <s (x :: qint64)) = (0 < sint x)"
  by (simp add: word_sless_alt)

text \<open>The two size checks of lines 278-294, for a positive size \<open>c\<close> and \<open>n\<close> bytes.\<close>

lemma size_check_iff:
  fixes x :: qint64
  assumes pos: "0 <s x" and range: "n < 2 ^ 31 \<or> sint x < 2 ^ 47"
  shows "(int n \<noteq> sint x \<and> below99 n (nat (sint x))) \<longleftrightarrow> 100 * int n < 99 * sint x"
proof -
  have p: "0 < sint x" using pos by (simp add: word_sless_zero)
  then have c: "0 < nat (sint x)" by simp
  have r: "n < 2 ^ 31 \<or> nat (sint x) < 2 ^ 47" using range p by auto
  have "below99 n (nat (sint x)) \<longleftrightarrow> 100 * n < 99 * nat (sint x)"
    using c r by (rule below99_iff)
  also have "\<dots> \<longleftrightarrow> 100 * int n < 99 * sint x" using p by linarith
  finally show ?thesis using p by auto
qed

text \<open>
  C5 (download size tolerance). Take a finished reply with status 200, no error and a
  Content-Type that is not HTML, with a positive Content-Length or a positive expected
  size, and a byte count that fits a 32-bit \<open>int\<close> or sizes below 2^47 bytes (so that the
  double product is exact enough). If the byte count is at least 99 percent of each
  positive size, \<open>downloadTrackSync\<close> goes on to write the bytes, and returns the
  destination path when the disk takes them all. If it is below 99 percent of one of
  them, the result is the empty path and no file is touched.
\<close>

theorem download_size_tolerance:
  assumes fin: "\<not> hasError reply" "statusCode reply = 200"
      "\<not> contains_ci (contentType reply) ''text/html''"
    and known: "0 <s contentLength reply \<or> 0 <s expectedSize"
    and range: "length (body reply) < 2 ^ 31
                \<or> (sint (contentLength reply) < 2 ^ 47 \<and> sint expectedSize < 2 ^ 47)"
  shows "((0 <s contentLength reply
             \<longrightarrow> 99 * sint (contentLength reply) \<le> 100 * int (length (body reply)))
          \<and> (0 <s expectedSize
             \<longrightarrow> 99 * sint expectedSize \<le> 100 * int (length (body reply)))
          \<longrightarrow> downloadTrackSync (Finished reply) io url destPath expectedSize w
                = writeFile io destPath (body reply) (w\<lparr>requested := requested w @ [url]\<rparr>)
              \<and> (openOk io \<and> written io = int (length (body reply))
                    \<and> sizeOnDisk io = int (length (body reply))
                  \<longrightarrow> fst (downloadTrackSync (Finished reply) io url destPath expectedSize w)
                        = destPath))
       \<and> ((0 <s contentLength reply
              \<and> 100 * int (length (body reply)) < 99 * sint (contentLength reply))
           \<or> (0 <s expectedSize \<and> 100 * int (length (body reply)) < 99 * sint expectedSize)
          \<longrightarrow> downloadTrackSync (Finished reply) io url destPath expectedSize w
                = ([], w\<lparr>requested := requested w @ [url]\<rparr>))"
proof -
  let ?n = "length (body reply)"
  let ?w = "w\<lparr>requested := requested w @ [url]\<rparr>"
  have cl: "(int ?n \<noteq> sint (contentLength reply) \<and> below99 ?n (nat (sint (contentLength reply))))
              \<longleftrightarrow> 100 * int ?n < 99 * sint (contentLength reply)"
    if "0 <s contentLength reply"
    using that range by (intro size_check_iff) auto
  have es: "(int ?n \<noteq> sint expectedSize \<and> below99 ?n (nat (sint expectedSize)))
              \<longleftrightarrow> 100 * int ?n < 99 * sint expectedSize"
    if "0 <s expectedSize"
    using that range by (intro size_check_iff) auto
  have ne: "body reply \<noteq> []"
    if "0 <s contentLength reply \<longrightarrow> 99 * sint (contentLength reply) \<le> 100 * int ?n"
      and "0 <s expectedSize \<longrightarrow> 99 * sint expectedSize \<le> 100 * int ?n"
    using that known by (auto simp: word_sless_zero)
  have d: "downloadTrackSync (Finished reply) io url destPath expectedSize w =
             (if body reply = [] then ([], ?w)
              else if 0 <s contentLength reply \<and> 100 * int ?n < 99 * sint (contentLength reply)
                then ([], ?w)
              else if 0 <s expectedSize \<and> 100 * int ?n < 99 * sint expectedSize
                then ([], ?w)
              else writeFile io destPath (body reply) ?w)"
    using fin cl es by (auto simp: downloadTrackSync_def Let_def)
  have good: "fst (writeFile io destPath (body reply) ?w) = destPath"
    if "openOk io" "written io = int ?n" "sizeOnDisk io = int ?n"
    using that by (simp add: writeFile_def Let_def)
  have empty: "\<not> (100 * int ?n < 99 * sint x)" if "body reply \<noteq> []" "\<not> 0 <s x" for x :: qint64
    using that by (simp add: word_sless_zero)
  show ?thesis
  proof (intro conjI impI)
    assume a: "(0 <s contentLength reply
                  \<longrightarrow> 99 * sint (contentLength reply) \<le> 100 * int ?n)
               \<and> (0 <s expectedSize \<longrightarrow> 99 * sint expectedSize \<le> 100 * int ?n)"
    then have "body reply \<noteq> []" using ne by blast
    with a show w: "downloadTrackSync (Finished reply) io url destPath expectedSize w
                   = writeFile io destPath (body reply) ?w"
      unfolding d by auto
    assume "openOk io \<and> written io = int ?n \<and> sizeOnDisk io = int ?n"
    with good show "fst (downloadTrackSync (Finished reply) io url destPath expectedSize w)
                      = destPath"
      unfolding w by blast
  next
    assume "(0 <s contentLength reply \<and> 100 * int ?n < 99 * sint (contentLength reply))
            \<or> (0 <s expectedSize \<and> 100 * int ?n < 99 * sint expectedSize)"
    then show "downloadTrackSync (Finished reply) io url destPath expectedSize w = ([], ?w)"
      unfolding d by auto
  qed
qed

text \<open>
  A Content-Length of 1000: 990 bytes are written and the path returned, 989 bytes are
  refused.
\<close>

theorem download_size_tolerance_witness:
  "0 <s contentLength (ex_sized_reply 1000 990)
   \<and> 99 * sint (contentLength (ex_sized_reply 1000 990))
        \<le> 100 * int (length (body (ex_sized_reply 1000 990)))
   \<and> fst (downloadTrackSync (Finished (ex_sized_reply 1000 990))
            \<lparr>openOk = True, written = 990, sizeOnDisk = 990\<rparr>
            ''http://h/f'' ''/cache/x.mp3'' 0 \<lparr>files = Map.empty, requested = []\<rparr>)
       = ''/cache/x.mp3''
   \<and> 100 * int (length (body (ex_sized_reply 1000 989)))
        < 99 * sint (contentLength (ex_sized_reply 1000 989))
   \<and> downloadTrackSync (Finished (ex_sized_reply 1000 989))
            \<lparr>openOk = True, written = 989, sizeOnDisk = 989\<rparr>
            ''http://h/f'' ''/cache/x.mp3'' 0 \<lparr>files = Map.empty, requested = []\<rparr>
       = ([], \<lparr>files = Map.empty, requested = [] @ [''http://h/f'']\<rparr>)"
proof -
  have sel: "hasError (ex_sized_reply cl n) = False" "statusCode (ex_sized_reply cl n) = 200"
    "contentType (ex_sized_reply cl n) = ''audio/mpeg''"
    "contentLength (ex_sized_reply cl n) = cl" "length (body (ex_sized_reply cl n)) = n" for cl n
    by (simp_all add: ex_sized_reply_def)
  have html: "\<not> contains_ci ''audio/mpeg'' ''text/html''" by code_simp
  have f: "\<not> hasError (ex_sized_reply 1000 n)" "statusCode (ex_sized_reply 1000 n) = 200"
    "\<not> contains_ci (contentType (ex_sized_reply 1000 n)) ''text/html''" for n
    by (simp_all only: sel html not_False_eq_True)
  have p: "0 <s contentLength (ex_sized_reply 1000 n)" for n
    by (simp add: sel word_sless_zero)
  then have k: "0 <s contentLength (ex_sized_reply 1000 n) \<or> 0 <s (0 :: qint64)" for n
    by (rule disjI1)
  have z: "\<not> 0 <s (0 :: qint64)" by (simp add: word_sless_zero)
  have r: "length (body (ex_sized_reply 1000 n)) < 2 ^ 31
           \<or> (sint (contentLength (ex_sized_reply 1000 n)) < 2 ^ 47 \<and> sint (0 :: qint64) < 2 ^ 47)"
    for n
    by (simp add: sel)
  have ge: "99 * sint (contentLength (ex_sized_reply 1000 990))
              \<le> 100 * int (length (body (ex_sized_reply 1000 990)))"
    by (simp add: sel)
  have lt: "100 * int (length (body (ex_sized_reply 1000 989)))
              < 99 * sint (contentLength (ex_sized_reply 1000 989))"
    by (simp add: sel)
  have io: "openOk \<lparr>openOk = True, written = 990, sizeOnDisk = 990\<rparr>
            \<and> written \<lparr>openOk = True, written = 990, sizeOnDisk = 990\<rparr>
                = int (length (body (ex_sized_reply 1000 990)))
            \<and> sizeOnDisk \<lparr>openOk = True, written = 990, sizeOnDisk = 990\<rparr>
                = int (length (body (ex_sized_reply 1000 990)))"
    by (simp add: sel)
  note t1 = download_size_tolerance [OF f k r, of 990
      "\<lparr>openOk = True, written = 990, sizeOnDisk = 990\<rparr>"
      "''http://h/f''" "''/cache/x.mp3''" "\<lparr>files = Map.empty, requested = []\<rparr>"]
  note t2 = download_size_tolerance [OF f k r, of 989
      "\<lparr>openOk = True, written = 989, sizeOnDisk = 989\<rparr>"
      "''http://h/f''" "''/cache/x.mp3''" "\<lparr>files = Map.empty, requested = []\<rparr>"]
  have a: "fst (downloadTrackSync (Finished (ex_sized_reply 1000 990))
            \<lparr>openOk = True, written = 990, sizeOnDisk = 990\<rparr>
            ''http://h/f'' ''/cache/x.mp3'' 0 \<lparr>files = Map.empty, requested = []\<rparr>)
       = ''/cache/x.mp3''"
    using t1 ge z io by blast
  have b: "downloadTrackSync (Finished (ex_sized_reply 1000 989))
            \<lparr>openOk = True, written = 989, sizeOnDisk = 989\<rparr>
            ''http://h/f'' ''/cache/x.mp3'' 0 \<lparr>files = Map.empty, requested = []\<rparr>
       = ([], \<lparr>files = Map.empty, requested = [] @ [''http://h/f'']\<rparr>)"
    using t2 lt p [of 989] by (simp only: world.simps world.update_convs) blast
  show ?thesis using p [of 990] ge a lt b by blast
qed

section \<open>Properties of the API client\<close>

subsection \<open>Projections of the building blocks\<close>

lemma emit_simps:
  "emitted (emit st sg) = emitted st @ [sg]"
  "network (emit st sg) = network st"
  "m_paginatedRequests (emit st sg) = m_paginatedRequests st"
  "m_pendingReplies (emit st sg) = m_pendingReplies st"
  "m_serverUrl (emit st sg) = m_serverUrl st"
  "stored (emit st sg) key = stored st key"
  by (simp_all add: emit_def stored_def)

lemma get_request_simps:
  "emitted (get_request st ep rt cid fid fp pg) = emitted st"
  "m_paginatedRequests (get_request st ep rt cid fid fp pg) = m_paginatedRequests st"
  "m_serverUrl (get_request st ep rt cid fid fp pg) = m_serverUrl st"
  "stored (get_request st ep rt cid fid fp pg) key = stored st key"
  "network (get_request st ep rt cid fid fp pg) = network st @
     [\<lparr>rp_id = length (network st), rp_url = m_serverUrl st @ ep, requestType = rt,
       prop_channelId = cid, prop_folderId = fid, prop_folderPath = fp, prop_page = pg\<rparr>]"
  by (simp_all add: get_request_def Let_def stored_def)

lemma fetchChannelTracksPage_simps:
  "emitted (fetchChannelTracksPage st cid pg ps) = emitted st @ [requestStarted]"
  "m_paginatedRequests (fetchChannelTracksPage st cid pg ps) = m_paginatedRequests st"
  "m_serverUrl (fetchChannelTracksPage st cid pg ps) = m_serverUrl st"
  "stored (fetchChannelTracksPage st cid pg ps) key = stored st key"
  "forChannel cid (last (network (fetchChannelTracksPage st cid pg ps)))"
  "prop_page (last (network (fetchChannelTracksPage st cid pg ps))) = pg"
  "butlast (network (fetchChannelTracksPage st cid pg ps)) = network st"
  by (simp_all add: fetchChannelTracksPage_def Let_def get_request_simps emit_simps forChannel_def)

lemma fetchChannelTracksPage_network:
  "network (fetchChannelTracksPage st cid pg ps)
     = network st @ [last (network (fetchChannelTracksPage st cid pg ps))]"
  by (simp add: fetchChannelTracksPage_def Let_def get_request_simps emit_simps)

lemma fetchFolderContentsPage_network:
  "network (fetchFolderContentsPage st cid fid pg ps)
     = network st @ [last (network (fetchFolderContentsPage st cid fid pg ps))]"
  by (simp add: fetchFolderContentsPage_def Let_def get_request_simps emit_simps)

lemma fetchFolderContentsPage_simps:
  "emitted (fetchFolderContentsPage st cid fid pg ps) = emitted st @ [requestStarted]"
  "m_paginatedRequests (fetchFolderContentsPage st cid fid pg ps) = m_paginatedRequests st"
  "m_serverUrl (fetchFolderContentsPage st cid fid pg ps) = m_serverUrl st"
  "stored (fetchFolderContentsPage st cid fid pg ps) key = stored st key"
  "forFolder cid fid (last (network (fetchFolderContentsPage st cid fid pg ps)))"
  "prop_page (last (network (fetchFolderContentsPage st cid fid pg ps))) = pg"
  "butlast (network (fetchFolderContentsPage st cid fid pg ps)) = network st"
  by (simp_all add: fetchFolderContentsPage_def Let_def get_request_simps emit_simps forFolder_def)

lemma accumulate_simps:
  "emitted (accumulate st key cid fid ts pag) = emitted st"
  "network (accumulate st key cid fid ts pag) = network st"
  "m_serverUrl (accumulate st key cid fid ts pag) = m_serverUrl st"
  "stored (accumulate st key cid fid ts pag) key = stored st key @ ts"
  by (simp_all add: accumulate_def Let_def stored_def PaginatedRequest_init_def split: option.splits)

lemma takeAccumulated_simps:
  "fst (takeAccumulated st key) = stored st key"
  "emitted (snd (takeAccumulated st key)) = emitted st"
  "network (snd (takeAccumulated st key)) = network st"
  "m_serverUrl (snd (takeAccumulated st key)) = m_serverUrl st"
  "m_paginatedRequests (snd (takeAccumulated st key)) key = None"
  by (simp_all add: takeAccumulated_def stored_def)

lemma finished_simps:
  "emitted (emit (st\<lparr>m_pendingReplies := ps\<rparr>) sg) = emitted st @ [sg]"
  "network (emit (st\<lparr>m_pendingReplies := ps\<rparr>) sg) = network st"
  "m_paginatedRequests (emit (st\<lparr>m_pendingReplies := ps\<rparr>) sg) = m_paginatedRequests st"
  "stored (emit (st\<lparr>m_pendingReplies := ps\<rparr>) sg) key = stored st key"
  "stored (st\<lparr>m_pendingReplies := ps\<rparr>) key = stored st key"
  by (simp_all add: emit_def stored_def)

lemma handle_channel_more_eq:
  assumes "pageOk doc True" "forChannel cid reply"
  shows "handleResponse Q st reply (Parsed doc) =
           fetchChannelTracksPage
             (accumulate st (''channel:'' @ cid) cid [] (pageItems Q cid doc)
                (parsePagination (doc_object doc)))
             cid (page (parsePagination (doc_object doc)) + 1)
             (pageSize (parsePagination (doc_object doc)))"
  using assms
  by (simp add: pageOk_def forChannel_def handleResponse_def handleChannelTracks_def Let_def
        pageItems_def)

lemma handle_channel_last_eq:
  assumes "pageOk doc False" "forChannel cid reply"
  shows "handleResponse Q st reply (Parsed doc) =
           emit (snd (takeAccumulated
                   (accumulate st (''channel:'' @ cid) cid [] (pageItems Q cid doc)
                      (parsePagination (doc_object doc)))
                   (''channel:'' @ cid)))
             (tracksLoaded cid (stored st (''channel:'' @ cid) @ pageItems Q cid doc))"
  using assms
  by (simp add: pageOk_def forChannel_def handleResponse_def handleChannelTracks_def Let_def
        pageItems_def split_beta takeAccumulated_simps accumulate_simps)

lemma handle_folder_more_eq:
  assumes "pageOk doc True" "forFolder cid fid reply"
  shows "handleResponse Q st reply (Parsed doc) =
           fetchFolderContentsPage
             (accumulate st (''folder:'' @ cid @ '':'' @ fid) cid fid (pageItems Q cid doc)
                (parsePagination (doc_object doc)))
             cid fid (page (parsePagination (doc_object doc)) + 1)
             (pageSize (parsePagination (doc_object doc)))"
  using assms
  by (simp add: pageOk_def forFolder_def handleResponse_def handleFolderContents_def Let_def
        pageItems_def)

lemma handle_folder_last_eq:
  assumes "pageOk doc False" "forFolder cid fid reply"
  shows "handleResponse Q st reply (Parsed doc) =
           emit (snd (takeAccumulated
                   (accumulate st (''folder:'' @ cid @ '':'' @ fid) cid fid (pageItems Q cid doc)
                      (parsePagination (doc_object doc)))
                   (''folder:'' @ cid @ '':'' @ fid)))
             (folderContentsLoaded cid fid
                (stored st (''folder:'' @ cid @ '':'' @ fid) @ pageItems Q cid doc))"
  using assms
  by (simp add: pageOk_def forFolder_def handleResponse_def handleFolderContents_def Let_def
        pageItems_def split_beta takeAccumulated_simps accumulate_simps)

lemma onReplyFinished_Payload:
  "onReplyFinished Q st reply (Payload parsed) =
     handleResponse Q (emit (st\<lparr>m_pendingReplies := removeAll reply (m_pendingReplies st)\<rparr>)
       requestFinished) reply parsed"
  by (simp add: onReplyFinished_def Let_def)

lemma reply_channel_more:
  assumes "pageOk doc True" "forChannel cid reply"
  shows "emitted (onReplyFinished Q st reply (Payload (Parsed doc)))
           = emitted st @ [requestFinished, requestStarted]"
    and "stored (onReplyFinished Q st reply (Payload (Parsed doc))) (''channel:'' @ cid)
           = stored st (''channel:'' @ cid) @ pageItems Q cid doc"
    and "forChannel cid (last (network (onReplyFinished Q st reply (Payload (Parsed doc)))))"
    and "prop_page (last (network (onReplyFinished Q st reply (Payload (Parsed doc)))))
           = page (parsePagination (doc_object doc)) + 1"
    and "butlast (network (onReplyFinished Q st reply (Payload (Parsed doc)))) = network st"
  by (simp_all add: onReplyFinished_Payload handle_channel_more_eq [OF assms] finished_simps fetchChannelTracksPage_simps accumulate_simps)

lemma reply_channel_last:
  assumes "pageOk doc False" "forChannel cid reply"
  shows "emitted (onReplyFinished Q st reply (Payload (Parsed doc))) = emitted st @
           [requestFinished,
            tracksLoaded cid (stored st (''channel:'' @ cid) @ pageItems Q cid doc)]"
    and "m_paginatedRequests (onReplyFinished Q st reply (Payload (Parsed doc)))
           (''channel:'' @ cid) = None"
    and "network (onReplyFinished Q st reply (Payload (Parsed doc))) = network st"
  by (simp_all add: onReplyFinished_Payload handle_channel_last_eq [OF assms] finished_simps emit_simps takeAccumulated_simps accumulate_simps)

lemma reply_folder_more:
  assumes "pageOk doc True" "forFolder cid fid reply"
  shows "emitted (onReplyFinished Q st reply (Payload (Parsed doc)))
           = emitted st @ [requestFinished, requestStarted]"
    and "stored (onReplyFinished Q st reply (Payload (Parsed doc)))
           (''folder:'' @ cid @ '':'' @ fid)
           = stored st (''folder:'' @ cid @ '':'' @ fid) @ pageItems Q cid doc"
    and "forFolder cid fid (last (network (onReplyFinished Q st reply (Payload (Parsed doc)))))"
    and "prop_page (last (network (onReplyFinished Q st reply (Payload (Parsed doc)))))
           = page (parsePagination (doc_object doc)) + 1"
    and "butlast (network (onReplyFinished Q st reply (Payload (Parsed doc)))) = network st"
  by (simp_all add: onReplyFinished_Payload handle_folder_more_eq [OF assms] finished_simps fetchFolderContentsPage_simps accumulate_simps)

lemma reply_folder_last:
  assumes "pageOk doc False" "forFolder cid fid reply"
  shows "emitted (onReplyFinished Q st reply (Payload (Parsed doc))) = emitted st @
           [requestFinished,
            folderContentsLoaded cid fid
              (stored st (''folder:'' @ cid @ '':'' @ fid) @ pageItems Q cid doc)]"
    and "m_paginatedRequests (onReplyFinished Q st reply (Payload (Parsed doc)))
           (''folder:'' @ cid @ '':'' @ fid) = None"
    and "network (onReplyFinished Q st reply (Payload (Parsed doc))) = network st"
  by (simp_all add: onReplyFinished_Payload handle_folder_last_eq [OF assms] finished_simps emit_simps takeAccumulated_simps accumulate_simps)

lemma deliver_append: "deliver Q st (xs @ ys) = deliver Q (deliver Q st xs) ys"
  by (induction xs arbitrary: st) simp_all

lemma deliver_channel_more:
  assumes "\<forall>e \<in> set evs. forChannel cid (fst e) \<and> pageOk (snd e) True"
  shows "emitted (deliver Q st evs)
           = emitted st @ concat (map (\<lambda>e. [requestFinished, requestStarted]) evs)
       \<and> stored (deliver Q st evs) (''channel:'' @ cid)
           = stored st (''channel:'' @ cid) @ concat (map (\<lambda>e. pageItems Q cid (snd e)) evs)"
  using assms
proof (induction evs arbitrary: st)
  case Nil
  then show ?case by simp
next
  case (Cons e evs)
  have e: "pageOk (snd e) True" "forChannel cid (fst e)" using Cons.prems by simp_all
  have rest: "\<forall>e \<in> set evs. forChannel cid (fst e) \<and> pageOk (snd e) True"
    using Cons.prems by simp
  show ?case
    using Cons.IH [OF rest, of "onReplyFinished Q st (fst e) (Payload (Parsed (snd e)))"]
      reply_channel_more(1,2) [OF e, of Q st]
    by simp
qed

lemma deliver_folder_more:
  assumes "\<forall>e \<in> set evs. forFolder cid fid (fst e) \<and> pageOk (snd e) True"
  shows "emitted (deliver Q st evs)
           = emitted st @ concat (map (\<lambda>e. [requestFinished, requestStarted]) evs)
       \<and> stored (deliver Q st evs) (''folder:'' @ cid @ '':'' @ fid)
           = stored st (''folder:'' @ cid @ '':'' @ fid)
               @ concat (map (\<lambda>e. pageItems Q cid (snd e)) evs)"
  using assms
proof (induction evs arbitrary: st)
  case Nil
  then show ?case by simp
next
  case (Cons e evs)
  have e: "pageOk (snd e) True" "forFolder cid fid (fst e)" using Cons.prems by simp_all
  have rest: "\<forall>e \<in> set evs. forFolder cid fid (fst e) \<and> pageOk (snd e) True"
    using Cons.prems by simp
  show ?case
    using Cons.IH [OF rest, of "onReplyFinished Q st (fst e) (Payload (Parsed (snd e)))"]
      reply_folder_more(1,2) [OF e, of Q st]
    by simp
qed



subsection \<open>Claims\<close>

lemma toInt_Undefined: "toInt Undefined d = d"
  by (simp add: toInt_def)

lemma toBool_Undefined: "toBool Undefined d = d"
  by (simp add: toBool_def)

lemma jvalue_missing: "\<not> jcontains obj key \<Longrightarrow> jvalue obj key = Undefined"
  by (simp add: jvalue_def jcontains_def)

text \<open>
  C2 as stated fails: after page 1 of channel 7 has been accumulated, a page 2 response
  with \<open>success = false\<close> leaves the accumulation of page 1 stored under the key.
\<close>

theorem envelope_failure_keeps_state_counterexample:
  "envelopeFailed (Parsed (Object [(''success'', Bool False)]))
   \<and> stored ex_first_fetch ''channel:7'' = [ex_track ''7'' ''a'']
   \<and> m_paginatedRequests ex_failed ''channel:7'' \<noteq> None
   \<and> stored ex_failed ''channel:7'' = [ex_track ''7'' ''a'']"
  by code_simp

text \<open>
  C2 (amended). A page response that is malformed JSON or whose envelope has
  \<open>success\<close> not \<open>true\<close> makes \<open>handleResponse\<close> emit exactly one \<open>apiError\<close> and do nothing
  else: no request for a further page, no track list emitted, and the stored
  accumulations, this key's included, stay as they were.
\<close>

theorem envelope_failure_abort:
  "envelopeFailed parsed \<Longrightarrow>
     handleResponse Q st reply parsed =
       st\<lparr>emitted := emitted st @
            [apiError (case parsed of
                         ParseError errorString \<Rightarrow> arg ''JSON parse error: %1'' errorString
                       | Parsed doc \<Rightarrow> envelopeError (doc_object doc))]\<rparr>"
  by (auto simp: envelopeFailed_def handleResponse_def emit_def Let_def split: json_parse.splits)

theorem envelope_failure_abort_witness:
  "envelopeFailed (Parsed (Object [(''success'', Bool False), (''error'', String ''boom'')]))
   \<and> handleResponse ex_qt ex_first_fetch (network ex_first_fetch ! 1)
         (Parsed (Object [(''success'', Bool False), (''error'', String ''boom'')]))
       = ex_first_fetch\<lparr>emitted := emitted ex_first_fetch @ [apiError ''boom'']\<rparr>"
proof -
  have h: "envelopeFailed (Parsed (Object [(''success'', Bool False), (''error'', String ''boom'')]))"
    by code_simp
  have m: "envelopeError (doc_object (Object [(''success'', Bool False), (''error'', String ''boom'')]))
             = ''boom''"
    by code_simp
  from envelope_failure_abort [OF h, of ex_qt ex_first_fetch "network ex_first_fetch ! 1"] h m
  show ?thesis by simp
qed

text \<open>
  C3 fails on the code. Requests 0 and 1 (pages 1 and 2) belong to the first fetch of
  channel 7, requests 2 and 3 (pages 1 and 2 again) to the second, started while request 1
  was in flight. The second fetch does empty the key and does ask for page 1. But the
  reply to request 1 is handled like any other reply for channel 7: its entry \<open>b\<close> is
  appended to the second fetch's \<open>c\<close>, the mixed list \<open>[c, b]\<close> is emitted as the result, and
  the second fetch's last page is then emitted as a second result \<open>[d]\<close>.
\<close>

theorem superseded_reply_mixes_results:
  "map rp_url (network ex_second_page2) =
     [''http://h/api/mobile/channels/7/files?Page=1&PageSize=100'',
      ''http://h/api/mobile/channels/7/files?Page=2&PageSize=100'',
      ''http://h/api/mobile/channels/7/files?Page=1&PageSize=100'',
      ''http://h/api/mobile/channels/7/files?Page=2&PageSize=100'']
   \<and> map rp_id (network ex_first_fetch) = [0, 1]
   \<and> stored ex_first_fetch ''channel:7'' = [ex_track ''7'' ''a'']
   \<and> stored ex_second_fetch ''channel:7'' = []
   \<and> map rp_id (network ex_second_fetch) = [0, 1, 2]
   \<and> emitted ex_second_page2 =
       emitted ex_second_fetch @
         [requestFinished, requestStarted,
          requestFinished, tracksLoaded ''7'' [ex_track ''7'' ''c'', ex_track ''7'' ''b''],
          requestFinished, tracksLoaded ''7'' [ex_track ''7'' ''d'']]"
  by code_simp

text \<open>
  What the restart does achieve, for any state with a server URL: the key is emptied and
  one request, for page 1, is issued; and when replies for that key are delivered
  afterwards, all with \<open>hasNext\<close> but the last, the result emitted is the concatenation of
  the pages of exactly those replies, so nothing accumulated before the restart is in it.
  The replies are told apart by their key only, which is how a reply to a request of the
  superseded fetch gets in.
\<close>

lemma restart_discards_accumulation:
  assumes url: "m_serverUrl st \<noteq> []"
  shows "(let st1 = fetchChannelTracks st cid offset limit in
            m_paginatedRequests st1 (''channel:'' @ cid) = None
          \<and> network st1 = network st @ [last (network st1)]
          \<and> forChannel cid (last (network st1)) \<and> prop_page (last (network st1)) = 1
          \<and> ((\<forall>e \<in> set evs. forChannel cid (fst e) \<and> pageOk (snd e) True)
               \<and> forChannel cid r \<and> pageOk d False \<longrightarrow>
              emitted (deliver Q st1 (evs @ [(r, d)])) =
                emitted st1 @ concat (map (\<lambda>e. [requestFinished, requestStarted]) evs)
                  @ [requestFinished,
                     tracksLoaded cid
                       (concat (map (\<lambda>e. pageItems Q cid (snd e)) evs) @ pageItems Q cid d)]))
       \<and> (let st1 = fetchFolderContents st cid fid offset limit in
            m_paginatedRequests st1 (''folder:'' @ cid @ '':'' @ fid) = None
          \<and> network st1 = network st @ [last (network st1)]
          \<and> forFolder cid fid (last (network st1)) \<and> prop_page (last (network st1)) = 1
          \<and> ((\<forall>e \<in> set fevs. forFolder cid fid (fst e) \<and> pageOk (snd e) True)
               \<and> forFolder cid fid fr \<and> pageOk fd False \<longrightarrow>
              emitted (deliver Q st1 (fevs @ [(fr, fd)])) =
                emitted st1 @ concat (map (\<lambda>e. [requestFinished, requestStarted]) fevs)
                  @ [requestFinished,
                     folderContentsLoaded cid fid
                       (concat (map (\<lambda>e. pageItems Q cid (snd e)) fevs) @ pageItems Q cid fd)]))"
proof -
  let ?c1 = "fetchChannelTracks st cid offset limit"
  have c0: "?c1 = fetchChannelTracksPage
                    (st\<lparr>m_paginatedRequests := (m_paginatedRequests st)(''channel:'' @ cid := None)\<rparr>)
                    cid 1 limit"
    using url by (simp add: fetchChannelTracks_def Let_def)
  have c1: "m_paginatedRequests ?c1 (''channel:'' @ cid) = None"
    "network ?c1 = network st @ [last (network ?c1)]"
    "forChannel cid (last (network ?c1))" "prop_page (last (network ?c1)) = 1"
    "stored ?c1 (''channel:'' @ cid) = []"
    unfolding c0
    using fetchChannelTracksPage_network
            [of "st\<lparr>m_paginatedRequests := (m_paginatedRequests st)(''channel:'' @ cid := None)\<rparr>"
               cid 1 limit]
    by (simp_all add: fetchChannelTracksPage_simps stored_def)
  have c2: "emitted (deliver Q ?c1 (evs @ [(r, d)])) =
              emitted ?c1 @ concat (map (\<lambda>e. [requestFinished, requestStarted]) evs)
                @ [requestFinished,
                   tracksLoaded cid
                     (concat (map (\<lambda>e. pageItems Q cid (snd e)) evs) @ pageItems Q cid d)]"
    if h: "\<forall>e \<in> set evs. forChannel cid (fst e) \<and> pageOk (snd e) True"
      and r: "forChannel cid r" and d: "pageOk d False"
    using deliver_channel_more [OF h, of Q ?c1]
      reply_channel_last(1) [OF d r, of Q "deliver Q ?c1 evs"] c1(5)
    by (simp add: deliver_append)
  let ?f1 = "fetchFolderContents st cid fid offset limit"
  have f0: "?f1 = fetchFolderContentsPage
                    (st\<lparr>m_paginatedRequests :=
                          (m_paginatedRequests st)(''folder:'' @ cid @ '':'' @ fid := None)\<rparr>)
                    cid fid 1 limit"
    using url by (simp add: fetchFolderContents_def Let_def)
  have f1: "m_paginatedRequests ?f1 (''folder:'' @ cid @ '':'' @ fid) = None"
    "network ?f1 = network st @ [last (network ?f1)]"
    "forFolder cid fid (last (network ?f1))" "prop_page (last (network ?f1)) = 1"
    "stored ?f1 (''folder:'' @ cid @ '':'' @ fid) = []"
    unfolding f0
    using fetchFolderContentsPage_network
            [of "st\<lparr>m_paginatedRequests :=
                      (m_paginatedRequests st)(''folder:'' @ cid @ '':'' @ fid := None)\<rparr>"
               cid fid 1 limit]
    by (simp_all add: fetchFolderContentsPage_simps stored_def)
  have f2: "emitted (deliver Q ?f1 (fevs @ [(fr, fd)])) =
              emitted ?f1 @ concat (map (\<lambda>e. [requestFinished, requestStarted]) fevs)
                @ [requestFinished,
                   folderContentsLoaded cid fid
                     (concat (map (\<lambda>e. pageItems Q cid (snd e)) fevs) @ pageItems Q cid fd)]"
    if h: "\<forall>e \<in> set fevs. forFolder cid fid (fst e) \<and> pageOk (snd e) True"
      and r: "forFolder cid fid fr" and d: "pageOk fd False"
    using deliver_folder_more [OF h, of Q ?f1]
      reply_folder_last(1) [OF d r, of Q "deliver Q ?f1 fevs"] f1(5)
    by (simp add: deliver_append)
  show ?thesis unfolding Let_def using c1(1-4) c2 f1(1-4) f2 by blast
qed

text \<open>
  C4 (aggregation completeness and order). A fetch is started with a server URL set; the
  reply to its page-1 request arrives with \<open>success\<close> and \<open>hasNext = true\<close>, then the reply
  to the request this triggers (for the next page) arrives with \<open>hasNext = false\<close>. The one
  result emitted is the first page's entries followed by the second page's, each in array
  order, and the key is no longer stored. For channels and for folders.
\<close>

theorem aggregation_completeness:
  assumes url: "m_serverUrl st0 \<noteq> []" and p1: "pageOk doc1 True" and p2: "pageOk doc2 False"
  shows "(let st1 = fetchChannelTracks st0 cid offset limit;
              st2 = onReplyFinished Q st1 (last (network st1)) (Payload (Parsed doc1));
              st3 = onReplyFinished Q st2 (last (network st2)) (Payload (Parsed doc2))
          in prop_page (last (network st1)) = 1
           \<and> prop_page (last (network st2)) = page (parsePagination (doc_object doc1)) + 1
           \<and> emitted st3 = emitted st0 @
                 [requestStarted, requestFinished, requestStarted, requestFinished,
                  tracksLoaded cid (pageItems Q cid doc1 @ pageItems Q cid doc2)]
           \<and> m_paginatedRequests st3 (''channel:'' @ cid) = None)
       \<and> (let st1 = fetchFolderContents st0 cid fid offset limit;
              st2 = onReplyFinished Q st1 (last (network st1)) (Payload (Parsed doc1));
              st3 = onReplyFinished Q st2 (last (network st2)) (Payload (Parsed doc2))
          in prop_page (last (network st1)) = 1
           \<and> prop_page (last (network st2)) = page (parsePagination (doc_object doc1)) + 1
           \<and> emitted st3 = emitted st0 @
                 [requestStarted, requestFinished, requestStarted, requestFinished,
                  folderContentsLoaded cid fid (pageItems Q cid doc1 @ pageItems Q cid doc2)]
           \<and> m_paginatedRequests st3 (''folder:'' @ cid @ '':'' @ fid) = None)"
proof -
  let ?c1 = "fetchChannelTracks st0 cid offset limit"
  let ?c2 = "onReplyFinished Q ?c1 (last (network ?c1)) (Payload (Parsed doc1))"
  let ?c3 = "onReplyFinished Q ?c2 (last (network ?c2)) (Payload (Parsed doc2))"
  have c1: "forChannel cid (last (network ?c1))" "prop_page (last (network ?c1)) = 1"
    "emitted ?c1 = emitted st0 @ [requestStarted]" "stored ?c1 (''channel:'' @ cid) = []"
    using url by (simp_all add: fetchChannelTracks_def Let_def fetchChannelTracksPage_simps stored_def)
  note c2 = reply_channel_more [OF p1 c1(1), of Q ?c1]
  note c3 = reply_channel_last [OF p2 c2(3), of Q]
  have chan: "prop_page (last (network ?c1)) = 1
           \<and> prop_page (last (network ?c2)) = page (parsePagination (doc_object doc1)) + 1
           \<and> emitted ?c3 = emitted st0 @
                 [requestStarted, requestFinished, requestStarted, requestFinished,
                  tracksLoaded cid (pageItems Q cid doc1 @ pageItems Q cid doc2)]
           \<and> m_paginatedRequests ?c3 (''channel:'' @ cid) = None"
    using c1 c2 c3 by simp
  let ?f1 = "fetchFolderContents st0 cid fid offset limit"
  let ?f2 = "onReplyFinished Q ?f1 (last (network ?f1)) (Payload (Parsed doc1))"
  let ?f3 = "onReplyFinished Q ?f2 (last (network ?f2)) (Payload (Parsed doc2))"
  have f1: "forFolder cid fid (last (network ?f1))" "prop_page (last (network ?f1)) = 1"
    "emitted ?f1 = emitted st0 @ [requestStarted]" "stored ?f1 (''folder:'' @ cid @ '':'' @ fid) = []"
    using url by (simp_all add: fetchFolderContents_def Let_def fetchFolderContentsPage_simps stored_def)
  note f2 = reply_folder_more [OF p1 f1(1), of Q ?f1]
  note f3 = reply_folder_last [OF p2 f2(3), of Q]
  have fold: "prop_page (last (network ?f1)) = 1
           \<and> prop_page (last (network ?f2)) = page (parsePagination (doc_object doc1)) + 1
           \<and> emitted ?f3 = emitted st0 @
                 [requestStarted, requestFinished, requestStarted, requestFinished,
                  folderContentsLoaded cid fid (pageItems Q cid doc1 @ pageItems Q cid doc2)]
           \<and> m_paginatedRequests ?f3 (''folder:'' @ cid @ '':'' @ fid) = None"
    using f1 f2 f3 by simp
  show ?thesis unfolding Let_def using chan fold by blast
qed


theorem aggregation_completeness_witness:
  "m_serverUrl (ex_client ''http://h'') \<noteq> []
   \<and> pageOk (ex_page [''a'', ''b''] True) True \<and> pageOk (ex_page [''c''] False) False
   \<and> (let st1 = fetchChannelTracks (ex_client ''http://h'') ''7'' 0 100;
          st2 = onReplyFinished ex_qt st1 (last (network st1))
                  (Payload (Parsed (ex_page [''a'', ''b''] True)));
          st3 = onReplyFinished ex_qt st2 (last (network st2))
                  (Payload (Parsed (ex_page [''c''] False)))
      in emitted st3 =
           [requestStarted, requestFinished, requestStarted, requestFinished,
            tracksLoaded ''7'' [ex_track ''7'' ''a'', ex_track ''7'' ''b'', ex_track ''7'' ''c'']]
         \<and> m_paginatedRequests st3 ''channel:7'' = None)"
proof -
  have u: "m_serverUrl (ex_client ''http://h'') \<noteq> []" by code_simp
  have p1: "pageOk (ex_page [''a'', ''b''] True) True" by code_simp
  have p2: "pageOk (ex_page [''c''] False) False" by code_simp
  have i1: "pageItems ex_qt ''7'' (ex_page [''a'', ''b''] True)
              = [ex_track ''7'' ''a'', ex_track ''7'' ''b'']" by code_simp
  have i2: "pageItems ex_qt ''7'' (ex_page [''c''] False) = [ex_track ''7'' ''c'']" by code_simp
  have e: "emitted (ex_client ''http://h'') = ([] :: unit signal list)" by code_simp
  from aggregation_completeness [OF u p1 p2, of "''7''" 0 100 ex_qt] u p1 p2
  show ?thesis unfolding Let_def by (simp add: i1 i2 e)
qed

text \<open>
  C6 (configuration gate). With an empty server URL each of the seven fetch operations
  returns the state it was given with one \<open>apiError\<close> appended to the emitted signals: no
  request reaches the network manager and no member changes.
\<close>

theorem configuration_gate:
  "m_serverUrl st = [] \<Longrightarrow>
     fetchChannels st = st\<lparr>emitted := emitted st @ [apiError not_configured]\<rparr>
   \<and> fetchChannelTracks st channelId offset limit
       = st\<lparr>emitted := emitted st @ [apiError not_configured]\<rparr>
   \<and> fetchFolderContents st channelId folderId offset limit
       = st\<lparr>emitted := emitted st @ [apiError not_configured]\<rparr>
   \<and> fetchFavorites st = st\<lparr>emitted := emitted st @ [apiError not_configured]\<rparr>
   \<and> fetchLocalFolders st = st\<lparr>emitted := emitted st @ [apiError not_configured]\<rparr>
   \<and> fetchLocalTracks Q st folderPath = st\<lparr>emitted := emitted st @ [apiError not_configured]\<rparr>
   \<and> searchTracks st query offset limit
       = Returned (st\<lparr>emitted := emitted st @ [apiError not_configured]\<rparr>)"
  by (simp add: fetchChannels_def fetchChannelTracks_def fetchFolderContents_def
        fetchFavorites_def fetchLocalFolders_def fetchLocalTracks_def searchTracks_def emit_def)

theorem configuration_gate_witness:
  "m_serverUrl (ex_client []) = []
   \<and> network (fetchChannelTracks (ex_client []) ''7'' 0 100) = []
   \<and> emitted (fetchChannelTracks (ex_client []) ''7'' 0 100)
       = [apiError ''TFM server URL is not configured'']
   \<and> searchTracks (ex_client [] :: unit TFMApiClient) ''q'' 0 100
       = Returned ((ex_client []) \<lparr>emitted := [apiError ''TFM server URL is not configured'']\<rparr>)
   \<and> emitted (fetchLocalTracks ex_qt (ex_client []) ''/music'')
       = [apiError ''TFM server URL is not configured'']"
proof -
  have u: "m_serverUrl (ex_client [] :: unit TFMApiClient) = []" by (simp add: ex_client_def)
  from configuration_gate
         [OF u, where channelId = "''7''" and offset = 0 and limit = 100 and folderId = "[]"
            and Q = ex_qt and folderPath = "''/music''" and query = "''q''"] u
  show ?thesis by (simp add: ex_client_def not_configured_def)
qed

text \<open>
  C8 (pagination defaults). Without a \<open>pagination\<close> object the result is page 1, page size
  100, 0 items, 1 page, no next and no previous page; with one, every field whose member
  is missing has that same default.
\<close>

theorem pagination_defaults:
  "(\<not> isObject (jvalue responseObj ''pagination'') \<longrightarrow>
      parsePagination responseObj =
        \<lparr>page = 1, pageSize = 100, totalItems = 0, totalPages = 1,
         hasNext = False, hasPrevious = False\<rparr>)
   \<and> (\<forall>pagination. jvalue responseObj ''pagination'' = Object pagination \<longrightarrow>
        (\<not> jcontains pagination ''page'' \<longrightarrow> page (parsePagination responseObj) = 1)
      \<and> (\<not> jcontains pagination ''pageSize'' \<longrightarrow> pageSize (parsePagination responseObj) = 100)
      \<and> (\<not> jcontains pagination ''totalItems'' \<longrightarrow> totalItems (parsePagination responseObj) = 0)
      \<and> (\<not> jcontains pagination ''totalPages'' \<longrightarrow> totalPages (parsePagination responseObj) = 1)
      \<and> (\<not> jcontains pagination ''hasNext'' \<longrightarrow> hasNext (parsePagination responseObj) = False)
      \<and> (\<not> jcontains pagination ''hasPrevious'' \<longrightarrow>
            hasPrevious (parsePagination responseObj) = False))"
  by (simp add: parsePagination_def PaginationInfo_init_def Let_def isObject_def toObject_def
        jvalue_missing toInt_Undefined toBool_Undefined)

theorem pagination_defaults_witness:
  "\<not> isObject (jvalue [(''success'', Bool True)] ''pagination'')
   \<and> parsePagination [(''success'', Bool True)] =
        \<lparr>page = 1, pageSize = 100, totalItems = 0, totalPages = 1,
         hasNext = False, hasPrevious = False\<rparr>
   \<and> jvalue [(''pagination'', Object [(''page'', Double 3), (''hasNext'', Bool True)])]
        ''pagination'' = Object [(''page'', Double 3), (''hasNext'', Bool True)]
   \<and> \<not> jcontains [(''page'', Double 3), (''hasNext'', Bool True)] ''pageSize''
   \<and> pageSize (parsePagination
        [(''pagination'', Object [(''page'', Double 3), (''hasNext'', Bool True)])]) = 100
   \<and> \<not> jcontains [(''page'', Double 3), (''hasNext'', Bool True)] ''totalPages''
   \<and> totalPages (parsePagination
        [(''pagination'', Object [(''page'', Double 3), (''hasNext'', Bool True)])]) = 1"
proof -
  have a: "\<not> isObject (jvalue [(''success'', Bool True)] ''pagination'')"
    by (simp add: isObject_def jvalue_def)
  have b: "jvalue [(''pagination'', Object [(''page'', Double 3), (''hasNext'', Bool True)])]
             ''pagination'' = Object [(''page'', Double 3), (''hasNext'', Bool True)]"
    by (simp add: jvalue_def)
  have c: "\<not> jcontains [(''page'', Double 3), (''hasNext'', Bool True)] ''pageSize''"
    "\<not> jcontains [(''page'', Double 3), (''hasNext'', Bool True)] ''totalPages''"
    by (simp_all add: jcontains_def)
  from pagination_defaults [of "[(''success'', Bool True)]"]
    pagination_defaults [of "[(''pagination'', Object [(''page'', Double 3), (''hasNext'', Bool True)])]"]
    a b c
  show ?thesis by blast
qed

end
